theory Spec2Isabelle
  imports Complex_Main "HOL-Library.AList"
begin

section \<open>Errors and Python container access\<close>

text \<open>
  Every exception the modelled code can raise is a value. A computation that may raise
  returns \<open>error + 'a\<close>, with \<open>Inl\<close> for the exception.
\<close>

datatype error = ValueError | IndexError | KeyError | TypeError | ZeroDivisionError

definition bindE :: "error + 'a \<Rightarrow> ('a \<Rightarrow> error + 'b) \<Rightarrow> error + 'b" where
  "bindE m f = (case m of Inl e \<Rightarrow> Inl e | Inr r \<Rightarrow> f r)"

text \<open>
  Python list subscription \<open>xs[i]\<close>: an index in \<open>[-len, 0)\<close> counts from the end,
  anything outside \<open>[-len, len)\<close> raises IndexError. \<open>py_norm_index\<close> gives the
  position addressed, \<open>py_index\<close> the element read.
\<close>

definition py_norm_index :: "nat \<Rightarrow> int \<Rightarrow> error + nat" where
  "py_norm_index n i =
     (if 0 \<le> i \<and> i < int n then Inr (nat i)
      else if - int n \<le> i \<and> i < 0 then Inr (nat (int n + i))
      else Inl IndexError)"

definition py_index :: "'a list \<Rightarrow> int \<Rightarrow> error + 'a" where
  "py_index xs i = bindE (py_norm_index (length xs) i) (\<lambda>k. Inr (xs ! k))"

text \<open>Python true division of floats, which raises on a zero divisor.\<close>

definition py_truediv :: "real \<Rightarrow> real \<Rightarrow> error + real" where
  "py_truediv p q = (if q = 0 then Inl ZeroDivisionError else Inr (p / q))"

section \<open>Data model\<close>

text \<open>
  Vehicles are identified by their \<open>id\<close>; segment queues hold identifiers, the
  simulation's table \<open>vehicles\<close> holds the objects.
\<close>

type_synonym vehicle_id = nat

text \<open>
  Modelled from the spec: the class Vehicle (\<open>core/vehicle.py\<close>) is not part of the
  sources at hand. The record has the attributes the simulation and the signal read and
  write (\<open>x\<close>, \<open>v\<close>, \<open>a\<close>, \<open>l\<close> carry the prefix \<open>veh_\<close>), with the spec's data
  model: a path of segment indices, a cursor into it, scalar position, velocity,
  acceleration, length, minimum gap and the kinematic limits.
\<close>

record Vehicle =
  path :: "int list"
  current_road_index :: int
  veh_x :: real
  veh_v :: real
  veh_a :: real
  veh_l :: real
  s0 :: real
  v_max :: real
  a_max :: real
  b_max :: real

text \<open>
  Modelled from the spec: the class Segment (\<open>core/geometry/segment.py\<close>) is not part
  of the sources at hand. The code uses its arc length \<open>get_length()\<close> and its deque
  \<open>vehicles\<close> of identifiers (front of the queue first).
\<close>

record Segment =
  get_length :: real
  seg_vehicles :: "vehicle_id list"

datatype SignalState = GREEN | YELLOW | RED

record TrafficSignal =
  segment_index :: int
  green_duration :: real
  yellow_duration :: real
  red_duration :: real
  stop_position :: "real option"
  cycle_time :: real
  state :: SignalState
  phantom :: "Vehicle option"
  position_resolved :: bool
  yellow_hold :: bool

text \<open>
  The configuration dictionary of a signal: each documented key may be present or not.
\<close>

record SignalConfig =
  cfg_segment_index :: "int option"
  cfg_green_duration :: "real option"
  cfg_yellow_duration :: "real option"
  cfg_red_duration :: "real option"
  cfg_stop_position :: "real option"

text \<open>
  The simulation. \<open>traffic_signals\<close> is a Python dict, kept as an association list in
  insertion order; \<open>vehicles\<close> is a dict that is only ever looked up by key. The
  attributes \<open>t\<close> and \<open>dt\<close> are \<open>sim_t\<close> and \<open>sim_dt\<close>. The type \<open>'g\<close> is that of
  the vehicle generators, whose class is not part of the sources at hand.
\<close>

record 'g Simulation =
  segments :: "Segment list"
  vehicles :: "vehicle_id \<rightharpoonup> Vehicle"
  vehicle_generator :: "'g list"
  traffic_signals :: "(int \<times> TrafficSignal) list"
  sim_t :: real
  frame_count :: int
  sim_dt :: real

section \<open>TrafficSignal: construction\<close>

definition empty_config :: SignalConfig where
  "empty_config =
     \<lparr>cfg_segment_index = None, cfg_green_duration = None, cfg_yellow_duration = None,
      cfg_red_duration = None, cfg_stop_position = None\<rparr>"

text \<open>
  \<open>TrafficSignal.__init__\<close>: the defaults of \<open>_set_default_config\<close>, overwritten by
  the keys the configuration has, then the properties of \<open>_init_properties\<close>.
\<close>

definition TrafficSignal_init :: "SignalConfig option \<Rightarrow> TrafficSignal" where
  "TrafficSignal_init config =
     (let c = (case config of None \<Rightarrow> empty_config | Some d \<Rightarrow> d) in
      \<lparr>segment_index = (case cfg_segment_index c of None \<Rightarrow> 0 | Some i \<Rightarrow> i),
       green_duration = (case cfg_green_duration c of None \<Rightarrow> 10 | Some d \<Rightarrow> d),
       yellow_duration = (case cfg_yellow_duration c of None \<Rightarrow> 3 | Some d \<Rightarrow> d),
       red_duration = (case cfg_red_duration c of None \<Rightarrow> 10 | Some d \<Rightarrow> d),
       stop_position = cfg_stop_position c,
       cycle_time = 0,
       state = GREEN,
       phantom = None,
       position_resolved = False,
       yellow_hold = False\<rparr>)"

definition cycle_duration :: "TrafficSignal \<Rightarrow> real" where
  "cycle_duration sg = green_duration sg + yellow_duration sg + red_duration sg"

section \<open>Simulation: creating a signal\<close>

text \<open>
  \<open>Simulation.create_traffic_signal\<close>. The result pairs what the call returns or
  raises with the simulation as the call leaves it, so that a raise shows its state too.
\<close>

definition create_traffic_signal ::
  "'g Simulation \<Rightarrow> int \<Rightarrow> SignalConfig option \<Rightarrow> (error + TrafficSignal) \<times> 'g Simulation" where
  "create_traffic_signal sim idx config =
     (if idx < 0 \<or> idx \<ge> int (length (segments sim)) then (Inl ValueError, sim)
      else
        let c = (case config of None \<Rightarrow> empty_config | Some d \<Rightarrow> d);
            c' = c\<lparr>cfg_segment_index := Some idx\<rparr>;
            signal = TrafficSignal_init (Some c')
        in (Inr signal, sim\<lparr>traffic_signals := AList.update idx signal (traffic_signals sim)\<rparr>))"

section \<open>TrafficSignal: the phantom\<close>

text \<open>
  \<open>TrafficSignal._make_phantom\<close>: a Vehicle built from the configuration of the
  source, at the stop position. A Vehicle's position is a scalar, so an unresolved
  stop position (\<open>None\<close>) is a TypeError here; \<open>update\<close> resolves the position before
  it builds a phantom.
\<close>

definition make_phantom :: "TrafficSignal \<Rightarrow> error + Vehicle" where
  "make_phantom sg =
     (case stop_position sg of
        None \<Rightarrow> Inl TypeError
      | Some p \<Rightarrow>
          Inr \<lparr>path = [], current_road_index = 0, veh_x = p, veh_v = 0, veh_a = 0,
               veh_l = 0, s0 = 0, v_max = 0, a_max = 0, b_max = 0\<rparr>)"

text \<open>
  The braking distance estimate of \<open>_any_vehicle_must_stop\<close>: the division is made
  under the guard \<open>b_max > 0\<close> only.
\<close>

definition braking_distance :: "Vehicle \<Rightarrow> error + real" where
  "braking_distance veh =
     (if b_max veh > 0 then py_truediv ((veh_v veh)\<^sup>2) (2 * b_max veh) else Inr 0)"

text \<open>
  The loop of \<open>_any_vehicle_must_stop\<close> over the queue of the guarded segment:
  a missing identifier raises KeyError, a comparison with an unresolved stop position
  raises TypeError, a vehicle at or past the line is skipped, and the first vehicle whose
  braking distance exceeds its distance to the line ends the loop with \<open>True\<close>.
\<close>

fun must_stop_loop :: "real option \<Rightarrow> (vehicle_id \<rightharpoonup> Vehicle) \<Rightarrow> vehicle_id list \<Rightarrow> error + bool" where
  "must_stop_loop sp tb [] = Inr False"
| "must_stop_loop sp tb (veh_id # rest) =
     (case tb veh_id of
        None \<Rightarrow> Inl KeyError
      | Some veh \<Rightarrow>
          (case sp of
             None \<Rightarrow> Inl TypeError
           | Some p \<Rightarrow>
               if veh_x veh \<ge> p then must_stop_loop sp tb rest
               else
                 let distance_to_line = p - veh_x veh in
                 bindE (braking_distance veh) (\<lambda>d.
                   if d > distance_to_line then Inr True
                   else must_stop_loop sp tb rest)))"

definition any_vehicle_must_stop :: "'g Simulation \<Rightarrow> TrafficSignal \<Rightarrow> error + bool" where
  "any_vehicle_must_stop sim sg =
     bindE (py_index (segments sim) (segment_index sg)) (\<lambda>segment.
       must_stop_loop (stop_position sg) (vehicles sim) (seg_vehicles segment))"

definition STOPPED_THRESHOLD :: real where
  "STOPPED_THRESHOLD = 5 / 100"

text \<open>
  The loop of \<open>_all_blocked_vehicles_stopped\<close>: vehicles at or past the line are
  skipped, the first vehicle before the line that is faster than the threshold ends the
  loop with \<open>False\<close>.
\<close>

fun stopped_loop :: "real option \<Rightarrow> (vehicle_id \<rightharpoonup> Vehicle) \<Rightarrow> vehicle_id list \<Rightarrow> error + bool" where
  "stopped_loop sp tb [] = Inr True"
| "stopped_loop sp tb (veh_id # rest) =
     (case tb veh_id of
        None \<Rightarrow> Inl KeyError
      | Some veh \<Rightarrow>
          (case sp of
             None \<Rightarrow> Inl TypeError
           | Some p \<Rightarrow>
               if veh_x veh \<ge> p then stopped_loop sp tb rest
               else if veh_v veh > STOPPED_THRESHOLD then Inr False
               else stopped_loop sp tb rest))"

definition all_blocked_vehicles_stopped :: "'g Simulation \<Rightarrow> TrafficSignal \<Rightarrow> error + bool" where
  "all_blocked_vehicles_stopped sim sg =
     bindE (py_index (segments sim) (segment_index sg)) (\<lambda>segment.
       stopped_loop (stop_position sg) (vehicles sim) (seg_vehicles segment))"

text \<open>\<open>TrafficSignal._update_phantom\<close>, branch by branch.\<close>

definition update_phantom :: "'g Simulation \<Rightarrow> TrafficSignal \<Rightarrow> error + TrafficSignal" where
  "update_phantom sim sg =
     (if state sg = GREEN then Inr (sg\<lparr>phantom := None, yellow_hold := False\<rparr>)
      else if state sg = RED then
        bindE (make_phantom sg) (\<lambda>ph. Inr (sg\<lparr>phantom := Some ph, yellow_hold := False\<rparr>))
      else if yellow_hold sg then
        bindE (all_blocked_vehicles_stopped sim sg) (\<lambda>stopped.
          if stopped then Inr (sg\<lparr>yellow_hold := False, phantom := None\<rparr>)
          else bindE (make_phantom sg) (\<lambda>ph. Inr (sg\<lparr>phantom := Some ph\<rparr>)))
      else
        bindE (any_vehicle_must_stop sim sg) (\<lambda>must.
          if must then
            bindE (make_phantom sg) (\<lambda>ph. Inr (sg\<lparr>yellow_hold := True, phantom := Some ph\<rparr>))
          else Inr (sg\<lparr>phantom := None\<rparr>)))"

section \<open>TrafficSignal: one update\<close>

text \<open>The three steps of \<open>TrafficSignal.update\<close> before the phantom is recomputed.\<close>

definition resolve_position :: "'g Simulation \<Rightarrow> TrafficSignal \<Rightarrow> error + TrafficSignal" where
  "resolve_position sim sg =
     (if \<not> position_resolved sg then
        bindE (py_index (segments sim) (segment_index sg)) (\<lambda>segment.
          let seg_length = get_length segment in
          Inr (sg\<lparr>stop_position :=
                     (case stop_position sg of None \<Rightarrow> Some seg_length | Some p \<Rightarrow> Some p),
                   position_resolved := True\<rparr>))
      else Inr sg)"

definition advance_clock :: "real \<Rightarrow> TrafficSignal \<Rightarrow> TrafficSignal" where
  "advance_clock dt sg =
     (let c = cycle_time sg + dt in
      sg\<lparr>cycle_time := (if c \<ge> cycle_duration sg then c - cycle_duration sg else c)\<rparr>)"

definition phase_of_clock :: "TrafficSignal \<Rightarrow> SignalState" where
  "phase_of_clock sg =
     (if cycle_time sg < green_duration sg then GREEN
      else if cycle_time sg < green_duration sg + yellow_duration sg then YELLOW
      else RED)"

definition set_phase :: "TrafficSignal \<Rightarrow> TrafficSignal" where
  "set_phase sg = sg\<lparr>state := phase_of_clock sg\<rparr>"

definition signal_update :: "'g Simulation \<Rightarrow> real \<Rightarrow> TrafficSignal \<Rightarrow> error + TrafficSignal" where
  "signal_update sim dt sg =
     bindE (resolve_position sim sg) (\<lambda>sg1.
       update_phantom sim (set_phase (advance_clock dt sg1)))"

text \<open>
  A run of updates of one signal, as a caller makes them: each with the simulation and
  the step it is given. The first failing update ends the run.
\<close>

fun updates :: "('g Simulation \<times> real) list \<Rightarrow> TrafficSignal \<Rightarrow> error + TrafficSignal" where
  "updates [] sg = Inr sg"
| "updates ((sim, dt) # later) sg = bindE (signal_update sim dt sg) (updates later)"

text \<open>
  The clock as the specification words it: the sum wrapped modulo the cycle duration
  (the floored remainder, as Python's \<open>%\<close> on floats), and the phase read off it.
\<close>

definition spec_wrapped_clock :: "real \<Rightarrow> real \<Rightarrow> real \<Rightarrow> real" where
  "spec_wrapped_clock clock dt cycle = (clock + dt) - cycle * of_int \<lfloor>(clock + dt) / cycle\<rfloor>"

definition spec_phase :: "real \<Rightarrow> real \<Rightarrow> real \<Rightarrow> SignalState" where
  "spec_phase green yellow wrapped =
     (if wrapped < green then GREEN else if wrapped < green + yellow then YELLOW else RED)"

section \<open>Simulation: one tick\<close>

text \<open>
  \<open>Vehicle.update(lead, dt)\<close> and \<open>VehicleGenerator.update(simulation)\<close> are not
  part of the sources at hand; the tick takes them as parameters. A vehicle's update
  acts on the vehicle it is called on and reads its leader; a generator's update acts
  on the simulation. Either may raise.
\<close>

type_synonym vehicle_update = "Vehicle option \<Rightarrow> real \<Rightarrow> Vehicle \<Rightarrow> error + Vehicle"

type_synonym 'g generator_update = "'g \<Rightarrow> 'g Simulation \<Rightarrow> error + 'g Simulation"

text \<open>The first loop of \<open>Simulation.update\<close>: every signal of the table, in its order.\<close>

fun update_signals_loop ::
  "'g Simulation \<Rightarrow> (int \<times> TrafficSignal) list \<Rightarrow> error + (int \<times> TrafficSignal) list" where
  "update_signals_loop sim [] = Inr []"
| "update_signals_loop sim ((k, signal) # rest) =
     bindE (signal_update sim (sim_dt sim) signal) (\<lambda>signal'.
       bindE (update_signals_loop sim rest) (\<lambda>rest'. Inr ((k, signal') # rest')))"

definition update_signals :: "'g Simulation \<Rightarrow> error + 'g Simulation" where
  "update_signals sim =
     bindE (update_signals_loop sim (traffic_signals sim)) (\<lambda>ts.
       Inr (sim\<lparr>traffic_signals := ts\<rparr>))"

text \<open>
  The second loop. Within a segment, the inner loop \<open>for i in range(1, len)\<close> updates
  the vehicle at position \<open>i\<close> with the vehicle at position \<open>i - 1\<close>, as the table
  holds it then, as leader.
\<close>

fun update_followers ::
  "vehicle_update \<Rightarrow> real \<Rightarrow> vehicle_id \<Rightarrow> vehicle_id list \<Rightarrow>
   (vehicle_id \<rightharpoonup> Vehicle) \<Rightarrow> error + (vehicle_id \<rightharpoonup> Vehicle)" where
  "update_followers U dt prev [] tb = Inr tb"
| "update_followers U dt prev (i # rest) tb =
     (case tb i of
        None \<Rightarrow> Inl KeyError
      | Some veh \<Rightarrow>
          (case tb prev of
             None \<Rightarrow> Inl KeyError
           | Some lead \<Rightarrow>
               bindE (U (Some lead) dt veh) (\<lambda>veh'.
                 update_followers U dt i rest (tb(i \<mapsto> veh')))))"

definition front_leader :: "'g Simulation \<Rightarrow> nat \<Rightarrow> Vehicle option" where
  "front_leader sim seg_idx =
     (case map_of (traffic_signals sim) (int seg_idx) of
        None \<Rightarrow> None
      | Some signal \<Rightarrow> phantom signal)"

definition update_segment_vehicles ::
  "vehicle_update \<Rightarrow> 'g Simulation \<Rightarrow> nat \<Rightarrow> Segment \<Rightarrow>
   (vehicle_id \<rightharpoonup> Vehicle) \<Rightarrow> error + (vehicle_id \<rightharpoonup> Vehicle)" where
  "update_segment_vehicles U sim seg_idx segment tb =
     (case seg_vehicles segment of
        [] \<Rightarrow> Inr tb
      | front # rest \<Rightarrow>
          (case tb front of
             None \<Rightarrow> Inl KeyError
           | Some veh \<Rightarrow>
               bindE (U (front_leader sim seg_idx) (sim_dt sim) veh) (\<lambda>veh'.
                 update_followers U (sim_dt sim) front rest (tb(front \<mapsto> veh')))))"

fun update_vehicles_loop ::
  "vehicle_update \<Rightarrow> 'g Simulation \<Rightarrow> nat \<Rightarrow> Segment list \<Rightarrow>
   (vehicle_id \<rightharpoonup> Vehicle) \<Rightarrow> error + (vehicle_id \<rightharpoonup> Vehicle)" where
  "update_vehicles_loop U sim seg_idx [] tb = Inr tb"
| "update_vehicles_loop U sim seg_idx (segment # rest) tb =
     bindE (update_segment_vehicles U sim seg_idx segment tb)
       (update_vehicles_loop U sim (Suc seg_idx) rest)"

definition update_vehicles :: "vehicle_update \<Rightarrow> 'g Simulation \<Rightarrow> error + 'g Simulation" where
  "update_vehicles U sim =
     bindE (update_vehicles_loop U sim 0 (segments sim) (vehicles sim)) (\<lambda>tb.
       Inr (sim\<lparr>vehicles := tb\<rparr>))"

text \<open>
  The third loop, "check roads for out of bounds vehicle". \<open>append_vehicle\<close> and
  \<open>popleft\<close> are the two deque operations on the queue of one segment of the list.
\<close>

definition append_vehicle :: "nat \<Rightarrow> vehicle_id \<Rightarrow> Segment list \<Rightarrow> Segment list" where
  "append_vehicle j vehicle_id segs =
     segs[j := (segs ! j)\<lparr>seg_vehicles := seg_vehicles (segs ! j) @ [vehicle_id]\<rparr>]"

definition popleft :: "nat \<Rightarrow> Segment list \<Rightarrow> Segment list" where
  "popleft k segs = segs[k := (segs ! k)\<lparr>seg_vehicles := tl (seg_vehicles (segs ! k))\<rparr>]"

definition check_segment :: "'g Simulation \<Rightarrow> nat \<Rightarrow> error + 'g Simulation" where
  "check_segment sim k =
     (let segment = segments sim ! k in
      case seg_vehicles segment of
        [] \<Rightarrow> Inr sim
      | vehicle_id # rest \<Rightarrow>
          (case vehicles sim vehicle_id of
             None \<Rightarrow> Inl KeyError
           | Some vehicle \<Rightarrow>
               if veh_x vehicle \<ge> get_length segment then
                 bindE
                   (if current_road_index vehicle + 1 < int (length (path vehicle)) then
                      let vehicle1 = vehicle\<lparr>current_road_index := current_road_index vehicle + 1\<rparr> in
                      bindE (py_index (path vehicle1) (current_road_index vehicle1)) (\<lambda>next_road_index.
                        bindE (py_norm_index (length (segments sim)) next_road_index) (\<lambda>j.
                          Inr (vehicle1, append_vehicle j vehicle_id (segments sim))))
                    else Inr (vehicle, segments sim))
                   (\<lambda>(vehicle2, segs).
                      Inr (sim\<lparr>vehicles := (vehicles sim)(vehicle_id \<mapsto> vehicle2\<lparr>veh_x := 0\<rparr>),
                               segments := popleft k segs\<rparr>))
               else Inr sim))"

fun check_loop :: "nat list \<Rightarrow> 'g Simulation \<Rightarrow> error + 'g Simulation" where
  "check_loop [] sim = Inr sim"
| "check_loop (k # ks) sim = bindE (check_segment sim k) (check_loop ks)"

definition check_out_of_bounds :: "'g Simulation \<Rightarrow> error + 'g Simulation" where
  "check_out_of_bounds sim = check_loop [0..<length (segments sim)] sim"

text \<open>The generators, then the clock of the simulation.\<close>

fun update_generators ::
  "'g generator_update \<Rightarrow> 'g list \<Rightarrow> 'g Simulation \<Rightarrow> error + 'g Simulation" where
  "update_generators G [] sim = Inr sim"
| "update_generators G (gen # rest) sim = bindE (G gen sim) (update_generators G rest)"

definition increment_time :: "'g Simulation \<Rightarrow> 'g Simulation" where
  "increment_time sim = sim\<lparr>sim_t := sim_t sim + sim_dt sim, frame_count := frame_count sim + 1\<rparr>"

text \<open>\<open>Simulation.update\<close>: the five steps in the order of the source.\<close>

definition sim_update ::
  "vehicle_update \<Rightarrow> 'g generator_update \<Rightarrow> 'g Simulation \<Rightarrow> error + 'g Simulation" where
  "sim_update U G sim =
     bindE (update_signals sim) (\<lambda>sim1.
       bindE (update_vehicles U sim1) (\<lambda>sim2.
         bindE (check_out_of_bounds sim2) (\<lambda>sim3.
           bindE (update_generators G (vehicle_generator sim3) sim3) (\<lambda>sim4.
             Inr (increment_time sim4)))))"

section \<open>Example states\<close>

text \<open>Two straight segments of length 100, no vehicle, no signal (the set-up of the tests).\<close>

definition two_segment_sim :: "unit Simulation" where
  "two_segment_sim =
     \<lparr>segments = [\<lparr>get_length = 100, seg_vehicles = []\<rparr>, \<lparr>get_length = 100, seg_vehicles = []\<rparr>],
      vehicles = Map.empty, vehicle_generator = [], traffic_signals = [],
      sim_t = 0, frame_count = 0, sim_dt = 1 / 60\<rparr>"

text \<open>The same with a default signal on segment 0, and a configuration to replace it with.\<close>

definition guarded_sim :: "unit Simulation" where
  "guarded_sim = two_segment_sim\<lparr>traffic_signals := [(0, TrafficSignal_init None)]\<rparr>"

definition green25 :: SignalConfig where
  "green25 = empty_config\<lparr>cfg_green_duration := Some 25\<rparr>"

definition sim50 :: "unit Simulation" where
  "sim50 =
     \<lparr>segments = [\<lparr>get_length = 50, seg_vehicles = []\<rparr>],
      vehicles = Map.empty, vehicle_generator = [], traffic_signals = [],
      sim_t = 0, frame_count = 0, sim_dt = 1 / 60\<rparr>"

definition short_green_config :: SignalConfig where
  "short_green_config =
     \<lparr>cfg_segment_index = Some 0, cfg_green_duration = Some (1 / 10),
      cfg_yellow_duration = Some (1 / 10), cfg_red_duration = Some 30,
      cfg_stop_position = Some 75\<rparr>"

definition no_brake_vehicle :: Vehicle where
  "no_brake_vehicle =
     \<lparr>path = [0], current_road_index = 0, veh_x = 50, veh_v = 15, veh_a = 0,
      veh_l = 4, s0 = 4, v_max = 16, a_max = 1, b_max = 0\<rparr>"

definition fast_vehicle :: Vehicle where
  "fast_vehicle = no_brake_vehicle\<lparr>b_max := 2\<rparr>"

definition yellow_config :: SignalConfig where
  "yellow_config =
     \<lparr>cfg_segment_index = Some 0, cfg_green_duration = Some 2, cfg_yellow_duration = Some 3,
      cfg_red_duration = Some 10, cfg_stop_position = Some 100\<rparr>"

definition sim_with_vehicle :: "Vehicle \<Rightarrow> unit Simulation" where
  "sim_with_vehicle veh =
     \<lparr>segments = [\<lparr>get_length = 200, seg_vehicles = [7]\<rparr>],
      vehicles = [7 \<mapsto> veh], vehicle_generator = [], traffic_signals = [],
      sim_t = 0, frame_count = 0, sim_dt = 1 / 60\<rparr>"

definition slowing_vehicle :: Vehicle where
  "slowing_vehicle = fast_vehicle\<lparr>veh_x := 90, veh_v := 1\<rparr>"

definition stopped_vehicle :: Vehicle where
  "stopped_vehicle = fast_vehicle\<lparr>veh_x := 95, veh_v := 0\<rparr>"

definition yellow_latched :: TrafficSignal where
  "yellow_latched =
     \<lparr>segment_index = 0, green_duration = 2, yellow_duration = 3, red_duration = 10,
      stop_position = Some 100, cycle_time = 2, state = YELLOW,
      phantom = Some \<lparr>path = [], current_road_index = 0, veh_x = 100, veh_v = 0, veh_a = 0,
                       veh_l = 0, s0 = 0, v_max = 0, a_max = 0, b_max = 0\<rparr>,
      position_resolved = True, yellow_hold = True\<rparr>"



definition example_update :: vehicle_update where
  "example_update lead dt veh =
     (let v' = (case lead of None \<Rightarrow> veh_v veh | Some ld \<Rightarrow> min (veh_v veh) (veh_v ld)) in
      Inr (veh\<lparr>veh_v := v', veh_x := veh_x veh + v' * dt\<rparr>))"

definition no_generators :: "unit generator_update" where
  "no_generators gen sim = Inr sim"

definition red_sim :: "unit Simulation" where
  "red_sim =
     \<lparr>segments = [\<lparr>get_length = 200, seg_vehicles = [7, 8]\<rparr>],
      vehicles = [7 \<mapsto> fast_vehicle, 8 \<mapsto> fast_vehicle\<lparr>veh_x := 30\<rparr>],
      vehicle_generator = [],
      traffic_signals = [(0, TrafficSignal_init (Some short_green_config))],
      sim_t = 0, frame_count = 0, sim_dt = 1\<rparr>"

section \<open>Results in the error monad\<close>

lemma bindE_Inl [simp]: "bindE (Inl e) f = Inl e"
  by (simp add: bindE_def)

lemma bindE_Inr [simp]: "bindE (Inr r) f = f r"
  by (simp add: bindE_def)

lemma bindE_eq_Inr: "bindE m f = Inr y \<longleftrightarrow> (\<exists>r. m = Inr r \<and> f r = Inr y)"
  by (cases m) simp_all

lemma bindE_eq_Inl: "bindE m f = Inl e \<longleftrightarrow> m = Inl e \<or> (\<exists>r. m = Inr r \<and> f r = Inl e)"
  by (cases m) simp_all


section \<open>Creating a signal\<close>

lemma filter_key_update:
  "distinct (map fst al) \<Longrightarrow> k \<in> fst ` set al \<Longrightarrow>
   filter (\<lambda>p. fst p = k) (AList.update k v al) = [(k, v)]"
proof (induction al)
  case Nil
  then show ?case by simp
next
  case (Cons p al)
  show ?case
  proof (cases "fst p = k")
    case True
    with Cons.prems have "\<forall>q \<in> set al. fst q \<noteq> k" by (auto simp: image_iff)
    then have "filter (\<lambda>q. fst q = k) al = []" by (simp add: filter_empty_conv)
    with True show ?thesis by (cases p) simp
  next
    case False
    with Cons show ?thesis by (cases p) auto
  qed
qed

text \<open>
  C8. \<open>create_traffic_signal\<close> with a segment index that is negative or at least the
  number of segments raises the out-of-range error (a ValueError) and leaves the whole
  simulation as it was: no signal is created, no field changes. With an index in range
  it returns a signal and stores it in the signal table under that index.
\<close>

theorem create_traffic_signal_bounds:
  "(idx < 0 \<or> idx \<ge> int (length (segments sim)) \<longrightarrow>
      create_traffic_signal sim idx config = (Inl ValueError, sim)) \<and>
   (0 \<le> idx \<and> idx < int (length (segments sim)) \<longrightarrow>
      (\<exists>signal. create_traffic_signal sim idx config =
         (Inr signal, sim\<lparr>traffic_signals := AList.update idx signal (traffic_signals sim)\<rparr>)))"
  by (auto simp: create_traffic_signal_def Let_def)

theorem create_traffic_signal_bounds_witness:
  "create_traffic_signal two_segment_sim (- 1) None = (Inl ValueError, two_segment_sim) \<and>
   create_traffic_signal two_segment_sim 2 None = (Inl ValueError, two_segment_sim) \<and>
   (\<exists>signal. create_traffic_signal two_segment_sim 0 None =
      (Inr signal, two_segment_sim\<lparr>traffic_signals := AList.update 0 signal (traffic_signals two_segment_sim)\<rparr>))"
  using create_traffic_signal_bounds [of "- 1" two_segment_sim None]
    create_traffic_signal_bounds [of 2 two_segment_sim None]
    create_traffic_signal_bounds [of 0 two_segment_sim None]
  by (simp add: two_segment_sim_def)

text \<open>
  C10. \<open>create_traffic_signal\<close> with a valid segment index that already has a signal
  does not raise. It builds the new signal from the configuration with the index
  written into it, returns it, and stores it under the index: the table then maps the
  index to the returned signal, every other key keeps its signal, and the keys and their
  order are as before. With the keys of the table distinct, as a dict's are, they stay
  distinct and the only entry under the index is the new signal, so the old one is no
  longer held by the simulation. Nothing but the signal table changes.
\<close>

theorem create_traffic_signal_replaces:
  assumes "0 \<le> idx" and "idx < int (length (segments sim))"
    and "map_of (traffic_signals sim) idx = Some old"
  shows "\<exists>signal sim'.
      create_traffic_signal sim idx config = (Inr signal, sim') \<and>
      signal = TrafficSignal_init
        (Some ((case config of None \<Rightarrow> empty_config | Some d \<Rightarrow> d)\<lparr>cfg_segment_index := Some idx\<rparr>)) \<and>
      segment_index signal = idx \<and>
      map_of (traffic_signals sim') idx = Some signal \<and>
      (\<forall>k. k \<noteq> idx \<longrightarrow> map_of (traffic_signals sim') k = map_of (traffic_signals sim) k) \<and>
      map fst (traffic_signals sim') = map fst (traffic_signals sim) \<and>
      (distinct (map fst (traffic_signals sim)) \<longrightarrow>
         distinct (map fst (traffic_signals sim')) \<and>
         filter (\<lambda>p. fst p = idx) (traffic_signals sim') = [(idx, signal)]) \<and>
      sim' = sim\<lparr>traffic_signals := traffic_signals sim'\<rparr>"
proof -
  define signal where "signal = TrafficSignal_init
        (Some ((case config of None \<Rightarrow> empty_config | Some d \<Rightarrow> d)\<lparr>cfg_segment_index := Some idx\<rparr>))"
  define sim' where "sim' = sim\<lparr>traffic_signals := AList.update idx signal (traffic_signals sim)\<rparr>"
  have key: "idx \<in> fst ` set (traffic_signals sim)"
    using map_of_SomeD [OF assms(3)] by (simp add: image_iff) (metis fst_conv)
  have 1: "create_traffic_signal sim idx config = (Inr signal, sim')"
    using assms(1,2) by (simp add: create_traffic_signal_def Let_def signal_def sim'_def)
  have 2: "segment_index signal = idx"
    by (simp add: signal_def TrafficSignal_init_def)
  have 3: "map_of (traffic_signals sim') idx = Some signal"
    by (simp add: sim'_def update_conv')
  have 4: "\<forall>k. k \<noteq> idx \<longrightarrow> map_of (traffic_signals sim') k = map_of (traffic_signals sim) k"
    by (simp add: sim'_def update_conv')
  have 5: "map fst (traffic_signals sim') = map fst (traffic_signals sim)"
    using key by (simp add: sim'_def update_keys)
  have 6: "distinct (map fst (traffic_signals sim)) \<longrightarrow>
         distinct (map fst (traffic_signals sim')) \<and>
         filter (\<lambda>p. fst p = idx) (traffic_signals sim') = [(idx, signal)]"
    using key by (simp add: sim'_def distinct_update filter_key_update)
  have 7: "sim' = sim\<lparr>traffic_signals := traffic_signals sim'\<rparr>"
    by (simp add: sim'_def)
  from 1 2 3 4 5 6 7 show ?thesis unfolding signal_def [symmetric] by blast
qed

theorem create_traffic_signal_replaces_witness:
  "\<exists>signal sim'.
      create_traffic_signal guarded_sim 0 (Some green25) = (Inr signal, sim') \<and>
      green_duration signal = 25 \<and>
      map_of (traffic_signals guarded_sim) 0 = Some (TrafficSignal_init None) \<and>
      green_duration (TrafficSignal_init None) = 10 \<and>
      map_of (traffic_signals sim') 0 = Some signal \<and>
      filter (\<lambda>p. fst p = 0) (traffic_signals sim') = [(0, signal)]"
proof -
  have a: "(0::int) \<le> 0" by simp
  have b: "0 < int (length (segments guarded_sim))"
    by (simp add: guarded_sim_def two_segment_sim_def)
  have c: "map_of (traffic_signals guarded_sim) 0 = Some (TrafficSignal_init None)"
    by (simp add: guarded_sim_def)
  have d: "distinct (map fst (traffic_signals guarded_sim))"
    by (simp add: guarded_sim_def)
  from create_traffic_signal_replaces [OF a b c, of "Some green25"] d
  obtain signal sim' where r:
    "create_traffic_signal guarded_sim 0 (Some green25) = (Inr signal, sim')"
    "signal = TrafficSignal_init (Some (green25\<lparr>cfg_segment_index := Some 0\<rparr>))"
    "map_of (traffic_signals sim') 0 = Some signal"
    "filter (\<lambda>p. fst p = 0) (traffic_signals sim') = [(0, signal)]"
    by auto
  have "green_duration signal = 25"
    by (simp add: r(2) TrafficSignal_init_def green25_def)
  moreover have "green_duration (TrafficSignal_init None) = 10"
    by (simp add: TrafficSignal_init_def empty_config_def)
  ultimately show ?thesis using r c by blast
qed


section \<open>The signal: phantom and stop position\<close>

lemma make_phantom_Inr:
  "make_phantom sg = Inr ph \<longleftrightarrow>
     (\<exists>p. stop_position sg = Some p \<and>
        ph = \<lparr>path = [], current_road_index = 0, veh_x = p, veh_v = 0, veh_a = 0,
               veh_l = 0, s0 = 0, v_max = 0, a_max = 0, b_max = 0\<rparr>)"
  by (auto simp: make_phantom_def split: option.splits)

lemma update_phantom_frame:
  assumes "update_phantom sim sg = Inr sg'"
  shows "sg' = sg\<lparr>phantom := phantom sg', yellow_hold := yellow_hold sg'\<rparr>"
  using assms
  by (auto simp: update_phantom_def bindE_eq_Inr split: if_splits)

lemma update_phantom_GREEN:
  assumes "update_phantom sim sg = Inr sg'" and "state sg = GREEN"
  shows "phantom sg' = None \<and> \<not> yellow_hold sg'"
  using assms by (auto simp: update_phantom_def)

lemma update_phantom_RED:
  assumes "update_phantom sim sg = Inr sg'" and "state sg = RED"
  shows "\<not> yellow_hold sg' \<and> (\<exists>ph. make_phantom sg = Inr ph \<and> phantom sg' = Some ph)"
  using assms by (auto simp: update_phantom_def bindE_eq_Inr)

lemma signal_update_Inr:
  "signal_update sim dt sg = Inr sg' \<longleftrightarrow>
     (\<exists>sg1. resolve_position sim sg = Inr sg1 \<and>
        update_phantom sim (set_phase (advance_clock dt sg1)) = Inr sg')"
  by (simp add: signal_update_def bindE_eq_Inr)

lemma resolve_position_Inr:
  assumes "resolve_position sim sg = Inr sg1"
  shows "position_resolved sg1"
    and "position_resolved sg \<Longrightarrow> sg1 = sg"
    and "\<not> position_resolved sg \<Longrightarrow>
           \<exists>segment. py_index (segments sim) (segment_index sg) = Inr segment \<and>
             sg1 = sg\<lparr>stop_position := Some (case stop_position sg of None \<Rightarrow> get_length segment | Some p \<Rightarrow> p),
                     position_resolved := True\<rparr>"
  using assms
  by (auto simp: resolve_position_def bindE_eq_Inr Let_def split: if_splits option.splits)

lemma clock_phase_fields [simp]:
  "stop_position (set_phase (advance_clock dt sg)) = stop_position sg"
  "position_resolved (set_phase (advance_clock dt sg)) = position_resolved sg"
  "yellow_hold (set_phase (advance_clock dt sg)) = yellow_hold sg"
  "segment_index (set_phase (advance_clock dt sg)) = segment_index sg"
  "green_duration (set_phase (advance_clock dt sg)) = green_duration sg"
  "yellow_duration (set_phase (advance_clock dt sg)) = yellow_duration sg"
  "red_duration (set_phase (advance_clock dt sg)) = red_duration sg"
  "cycle_time (set_phase (advance_clock dt sg)) = cycle_time (advance_clock dt sg)"
  "state (set_phase (advance_clock dt sg)) = phase_of_clock (advance_clock dt sg)"
  by (simp_all add: set_phase_def advance_clock_def Let_def)

lemma update_phantom_fields:
  assumes "update_phantom sim sg = Inr sg'"
  shows "stop_position sg' = stop_position sg" "position_resolved sg' = position_resolved sg"
    "state sg' = state sg" "cycle_time sg' = cycle_time sg" "segment_index sg' = segment_index sg"
    "green_duration sg' = green_duration sg" "yellow_duration sg' = yellow_duration sg"
    "red_duration sg' = red_duration sg"
  by (subst update_phantom_frame [OF assms], simp)+

text \<open>
  C3. After every update of a signal that returns: if the phase is RED, the phantom is
  there, at the resolved stop position, with velocity 0, length 0 and gap \<open>s0 = 0\<close>
  (and the yellow hold is cleared); if the phase is GREEN, there is no phantom and the
  yellow hold is cleared.
\<close>

theorem phantom_presence:
  assumes "signal_update sim dt sg = Inr sg'"
  shows "(state sg' = RED \<longrightarrow>
            (\<exists>p ph. stop_position sg' = Some p \<and> phantom sg' = Some ph \<and>
               veh_x ph = p \<and> veh_v ph = 0 \<and> veh_l ph = 0 \<and> s0 ph = 0) \<and> \<not> yellow_hold sg') \<and>
         (state sg' = GREEN \<longrightarrow> phantom sg' = None \<and> \<not> yellow_hold sg')"
proof -
  from assms obtain sg1 where
    up: "update_phantom sim (set_phase (advance_clock dt sg1)) = Inr sg'"
    by (auto simp: signal_update_Inr)
  let ?s = "set_phase (advance_clock dt sg1)"
  have st: "state sg' = state ?s" and sp: "stop_position sg' = stop_position ?s"
    using update_phantom_fields [OF up] by simp_all
  have red: "state sg' = RED \<longrightarrow>
            (\<exists>p ph. stop_position sg' = Some p \<and> phantom sg' = Some ph \<and>
               veh_x ph = p \<and> veh_v ph = 0 \<and> veh_l ph = 0 \<and> s0 ph = 0) \<and> \<not> yellow_hold sg'"
  proof
    assume "state sg' = RED"
    with st have "state ?s = RED" by simp
    from update_phantom_RED [OF up this] obtain ph where
      "make_phantom ?s = Inr ph" "phantom sg' = Some ph" "\<not> yellow_hold sg'" by blast
    then show "(\<exists>p ph. stop_position sg' = Some p \<and> phantom sg' = Some ph \<and>
               veh_x ph = p \<and> veh_v ph = 0 \<and> veh_l ph = 0 \<and> s0 ph = 0) \<and> \<not> yellow_hold sg'"
      using sp by (auto simp: make_phantom_Inr)
  qed
  have green: "state sg' = GREEN \<longrightarrow> phantom sg' = None \<and> \<not> yellow_hold sg'"
    using update_phantom_GREEN [OF up] st by simp
  from red green show ?thesis by blast
qed

lemma signal_update_stop_position:
  assumes "signal_update sim dt sg = Inr sg'"
  shows "position_resolved sg'"
    and "position_resolved sg \<Longrightarrow> stop_position sg' = stop_position sg"
    and "\<not> position_resolved sg \<Longrightarrow>
           \<exists>segment. py_index (segments sim) (segment_index sg) = Inr segment \<and>
             stop_position sg' =
               Some (case stop_position sg of None \<Rightarrow> get_length segment | Some p \<Rightarrow> p)"
proof -
  from assms obtain sg1 where
    res: "resolve_position sim sg = Inr sg1" and
    up: "update_phantom sim (set_phase (advance_clock dt sg1)) = Inr sg'"
    by (auto simp: signal_update_Inr)
  have sp: "stop_position sg' = stop_position sg1"
    and pr: "position_resolved sg' = position_resolved sg1"
    using update_phantom_fields [OF up] by simp_all
  show "position_resolved sg'"
    using pr resolve_position_Inr(1) [OF res] by simp
  show "stop_position sg' = stop_position sg" if "position_resolved sg"
    using sp resolve_position_Inr(2) [OF res that] by simp
  show "\<exists>segment. py_index (segments sim) (segment_index sg) = Inr segment \<and>
          stop_position sg' =
            Some (case stop_position sg of None \<Rightarrow> get_length segment | Some p \<Rightarrow> p)"
    if "\<not> position_resolved sg"
    using sp resolve_position_Inr(3) [OF res that] by auto
qed

lemma updates_resolved:
  "position_resolved sg \<Longrightarrow> updates steps sg = Inr sg' \<Longrightarrow>
   position_resolved sg' \<and> stop_position sg' = stop_position sg"
proof (induction steps arbitrary: sg)
  case Nil
  then show ?case by simp
next
  case (Cons step steps)
  obtain sim dt where step: "step = (sim, dt)" by (cases step)
  from Cons.prems(2) obtain sg1 where
    first: "signal_update sim dt sg = Inr sg1" and rest: "updates steps sg1 = Inr sg'"
    by (auto simp: step bindE_eq_Inr)
  from signal_update_stop_position(1,2) [OF first] Cons.prems(1)
  have "position_resolved sg1" "stop_position sg1 = stop_position sg" by simp_all
  with Cons.IH [OF _ rest] show ?case by simp
qed

lemma updates_first_resolves:
  assumes "updates ((sim, dt) # later) sg = Inr sg'" and "\<not> position_resolved sg"
  shows "\<exists>segment. py_index (segments sim) (segment_index sg) = Inr segment \<and>
           position_resolved sg' \<and>
           stop_position sg' =
             Some (case stop_position sg of None \<Rightarrow> get_length segment | Some p \<Rightarrow> p)"
proof -
  from assms(1) obtain sg1 where
    first: "signal_update sim dt sg = Inr sg1" and rest: "updates later sg1 = Inr sg'"
    by (auto simp: bindE_eq_Inr)
  from signal_update_stop_position(3) [OF first assms(2)] obtain segment where
    seg: "py_index (segments sim) (segment_index sg) = Inr segment"
    "stop_position sg1 = Some (case stop_position sg of None \<Rightarrow> get_length segment | Some p \<Rightarrow> p)"
    by blast
  from updates_resolved [OF signal_update_stop_position(1) [OF first] rest] seg
  show ?thesis by auto
qed

lemma TrafficSignal_init_fresh:
  "\<not> position_resolved (TrafficSignal_init config)"
  "cycle_time (TrafficSignal_init config) = 0"
  "state (TrafficSignal_init config) = GREEN"
  "phantom (TrafficSignal_init config) = None"
  "\<not> yellow_hold (TrafficSignal_init config)"
  by (simp_all add: TrafficSignal_init_def Let_def)

lemma TrafficSignal_init_default:
  "segment_index (TrafficSignal_init None) = 0"
  "stop_position (TrafficSignal_init None) = None"
  "green_duration (TrafficSignal_init None) = 10"
  "yellow_duration (TrafficSignal_init None) = 3"
  "red_duration (TrafficSignal_init None) = 10"
  by (simp_all add: TrafficSignal_init_def empty_config_def)

lemma py_index_0: "py_index (y # ys) 0 = Inr y"
  by (simp add: py_index_def py_norm_index_def)

text \<open>
  C7. A signal as constructed has its stop position unresolved. The first update of
  a run resolves it, reading the guarded segment of the simulation it is given: to the
  configured value if there is one, else to the length of that segment. No later
  update, with whatever simulation and step, changes it. So a signal with the default
  configuration on a segment of length 50 has stop position 50 after any number of
  updates.
\<close>

theorem stop_position_resolved_once:
  assumes "updates ((sim, dt) # later) (TrafficSignal_init config) = Inr sg'"
  shows "\<not> position_resolved (TrafficSignal_init config) \<and>
         (\<exists>segment.
            py_index (segments sim) (segment_index (TrafficSignal_init config)) = Inr segment \<and>
            position_resolved sg' \<and>
            stop_position sg' =
              Some (case stop_position (TrafficSignal_init config) of
                      None \<Rightarrow> get_length segment | Some p \<Rightarrow> p)) \<and>
         (\<forall>more sg''. updates more sg' = Inr sg'' \<longrightarrow>
            position_resolved sg'' \<and> stop_position sg'' = stop_position sg') \<and>
         (config = None \<and> (\<exists>seg rest. segments sim = seg # rest \<and> get_length seg = 50) \<longrightarrow>
            stop_position sg' = Some 50)"
proof -
  let ?sg = "TrafficSignal_init config"
  have fresh: "\<not> position_resolved ?sg" by (rule TrafficSignal_init_fresh)
  from updates_first_resolves [OF assms fresh] obtain segment where
    seg: "py_index (segments sim) (segment_index ?sg) = Inr segment"
      "position_resolved sg'"
      "stop_position sg' = Some (case stop_position ?sg of None \<Rightarrow> get_length segment | Some p \<Rightarrow> p)"
    by blast
  have later: "\<forall>more sg''. updates more sg' = Inr sg'' \<longrightarrow>
            position_resolved sg'' \<and> stop_position sg'' = stop_position sg'"
    using updates_resolved [OF seg(2)] by blast
  have example: "config = None \<and> (\<exists>seg rest. segments sim = seg # rest \<and> get_length seg = 50) \<longrightarrow>
            stop_position sg' = Some 50"
    using seg(1,3) by (auto simp: TrafficSignal_init_default py_index_0)
  from fresh seg later example show ?thesis by blast
qed

lemmas signal_defs =
  signal_update_def resolve_position_def update_phantom_def set_phase_def advance_clock_def
  phase_of_clock_def cycle_duration_def make_phantom_def any_vehicle_must_stop_def
  all_blocked_vehicles_stopped_def py_index_def py_norm_index_def TrafficSignal_init_def
  empty_config_def Let_def

theorem stop_position_resolved_once_witness:
  "\<exists>sg'. updates [(sim50, 1 / 60), (sim50, 1 / 60)] (TrafficSignal_init None) = Inr sg' \<and>
     position_resolved sg' \<and> stop_position sg' = Some 50"
proof -
  have "\<exists>sg'. updates [(sim50, 1 / 60), (sim50, 1 / 60)] (TrafficSignal_init None) = Inr sg'"
    by (simp add: signal_defs sim50_def)
  then obtain sg' where
    run: "updates ((sim50, 1 / 60) # [(sim50, 1 / 60)]) (TrafficSignal_init None) = Inr sg'"
    by blast
  have "\<exists>seg rest. segments sim50 = seg # rest \<and> get_length seg = 50"
    by (simp add: sim50_def)
  with stop_position_resolved_once [OF run] run show ?thesis by blast
qed

theorem phantom_presence_witness:
  "(\<exists>sg'. signal_update two_segment_sim 1 (TrafficSignal_init (Some short_green_config)) = Inr sg' \<and>
      state sg' = RED \<and> stop_position sg' = Some 75 \<and>
      (\<exists>ph. phantom sg' = Some ph \<and> veh_x ph = 75 \<and> veh_v ph = 0 \<and> veh_l ph = 0 \<and> s0 ph = 0)) \<and>
   (\<exists>sg'. signal_update two_segment_sim (1 / 60) (TrafficSignal_init None) = Inr sg' \<and>
      state sg' = GREEN \<and> phantom sg' = None \<and> \<not> yellow_hold sg')"
proof -
  have "\<exists>sg'. signal_update two_segment_sim 1 (TrafficSignal_init (Some short_green_config)) = Inr sg' \<and>
      state sg' = RED \<and> stop_position sg' = Some 75"
    by (simp add: signal_defs two_segment_sim_def short_green_config_def)
  then obtain r where r:
    "signal_update two_segment_sim 1 (TrafficSignal_init (Some short_green_config)) = Inr r"
    "state r = RED" "stop_position r = Some 75"
    by blast
  have "\<exists>sg'. signal_update two_segment_sim (1 / 60) (TrafficSignal_init None) = Inr sg' \<and>
      state sg' = GREEN"
    by (simp add: signal_defs two_segment_sim_def)
  then obtain g where g:
    "signal_update two_segment_sim (1 / 60) (TrafficSignal_init None) = Inr g" "state g = GREEN"
    by blast
  from phantom_presence [OF r(1)] r(2,3)
  have "\<exists>ph. phantom r = Some ph \<and> veh_x ph = 75 \<and> veh_v ph = 0 \<and> veh_l ph = 0 \<and> s0 ph = 0"
    by auto
  moreover from phantom_presence [OF g(1)] g(2)
  have "phantom g = None \<and> \<not> yellow_hold g" by simp
  ultimately show ?thesis using r g by blast
qed

section \<open>The signal: the YELLOW check\<close>

lemma braking_distance_total:
  "braking_distance veh =
     Inr (if b_max veh > 0 then (veh_v veh)\<^sup>2 / (2 * b_max veh) else 0)"
  by (simp add: braking_distance_def py_truediv_def)

lemma must_stop_loop_skip:
  assumes "tb i = Some veh" and "b_max veh \<le> 0"
  shows "must_stop_loop (Some p) tb (i # rest) = must_stop_loop (Some p) tb rest"
  using assms by (simp add: braking_distance_total Let_def)

lemma must_stop_loop_errors:
  "must_stop_loop sp tb q = Inl e \<Longrightarrow> e = KeyError \<or> e = TypeError"
proof (induction q)
  case Nil
  then show ?case by simp
next
  case (Cons i q)
  then show ?case
    by (auto simp: braking_distance_total Let_def split: option.splits if_splits)
qed

lemma stopped_loop_errors:
  "stopped_loop sp tb q = Inl e \<Longrightarrow> e = KeyError \<or> e = TypeError"
proof (induction q)
  case Nil
  then show ?case by simp
next
  case (Cons i q)
  then show ?case
    by (auto split: option.splits if_splits)
qed

lemma py_index_errors: "py_index xs i = Inl e \<Longrightarrow> e = IndexError"
  by (auto simp: py_index_def py_norm_index_def split: if_splits)

lemma make_phantom_errors: "make_phantom sg = Inl e \<Longrightarrow> e = TypeError"
  by (auto simp: make_phantom_def split: option.splits)

lemma update_phantom_errors:
  "update_phantom sim sg = Inl e \<Longrightarrow> e = KeyError \<or> e = TypeError \<or> e = IndexError"
  by (auto simp: update_phantom_def any_vehicle_must_stop_def all_blocked_vehicles_stopped_def
      bindE_eq_Inl
      dest: must_stop_loop_errors stopped_loop_errors py_index_errors make_phantom_errors
      split: if_splits)

lemma resolve_position_errors: "resolve_position sim sg = Inl e \<Longrightarrow> e = IndexError"
  by (auto simp: resolve_position_def bindE_eq_Inl Let_def dest: py_index_errors split: if_splits)

lemma signal_update_errors:
  "signal_update sim dt sg = Inl e \<Longrightarrow> e = KeyError \<or> e = TypeError \<or> e = IndexError"
  by (auto simp: signal_update_def bindE_eq_Inl
      dest: resolve_position_errors update_phantom_errors)

text \<open>
  C9. The braking distance of the YELLOW check always has a value: the division by
  \<open>2 * b_max\<close> is made under the guard \<open>b_max > 0\<close> only, where it cannot fault, and
  for \<open>b_max \<le> 0\<close> the distance is 0. A vehicle with \<open>b_max \<le> 0\<close> never
  triggers: the loop goes on to the rest of the queue as if the vehicle were not there.
  Neither the loop nor a whole update of a signal raises ZeroDivisionError, whatever the
  \<open>b_max\<close> of the vehicles.
\<close>

theorem braking_distance_no_division_fault:
  "(\<exists>d. braking_distance veh = Inr d) \<and>
   (b_max veh > 0 \<longrightarrow> braking_distance veh = py_truediv ((veh_v veh)\<^sup>2) (2 * b_max veh) \<and>
      braking_distance veh = Inr ((veh_v veh)\<^sup>2 / (2 * b_max veh))) \<and>
   (b_max veh \<le> 0 \<longrightarrow> braking_distance veh = Inr 0) \<and>
   (b_max veh \<le> 0 \<and> tb i = Some veh \<longrightarrow>
      must_stop_loop (Some p) tb (i # rest) = must_stop_loop (Some p) tb rest) \<and>
   must_stop_loop sp tb q \<noteq> Inl ZeroDivisionError \<and>
   signal_update sim dt sg \<noteq> Inl ZeroDivisionError"
proof -
  have 1: "\<exists>d. braking_distance veh = Inr d"
    by (simp add: braking_distance_total)
  have 2: "b_max veh > 0 \<longrightarrow> braking_distance veh = py_truediv ((veh_v veh)\<^sup>2) (2 * b_max veh) \<and>
      braking_distance veh = Inr ((veh_v veh)\<^sup>2 / (2 * b_max veh))"
    by (simp add: braking_distance_def py_truediv_def)
  have 3: "b_max veh \<le> 0 \<longrightarrow> braking_distance veh = Inr 0"
    by (simp add: braking_distance_def)
  have 4: "b_max veh \<le> 0 \<and> tb i = Some veh \<longrightarrow>
      must_stop_loop (Some p) tb (i # rest) = must_stop_loop (Some p) tb rest"
    using must_stop_loop_skip by blast
  have 5: "must_stop_loop sp tb q \<noteq> Inl ZeroDivisionError"
    using must_stop_loop_errors by blast
  have 6: "signal_update sim dt sg \<noteq> Inl ZeroDivisionError"
    using signal_update_errors by blast
  from 1 2 3 4 5 6 show ?thesis by blast
qed

theorem braking_distance_no_division_fault_witness:
  "braking_distance fast_vehicle = Inr (225 / 4) \<and>
   braking_distance no_brake_vehicle = Inr 0 \<and>
   must_stop_loop (Some 100) [7 \<mapsto> no_brake_vehicle] [7] = Inr False \<and>
   must_stop_loop (Some 100) [7 \<mapsto> fast_vehicle] [7] = Inr True"
proof -
  have a: "b_max fast_vehicle > 0" "(veh_v fast_vehicle)\<^sup>2 / (2 * b_max fast_vehicle) = 225 / 4"
    by (simp_all add: fast_vehicle_def no_brake_vehicle_def)
  have b: "b_max no_brake_vehicle \<le> 0" "[7 \<mapsto> no_brake_vehicle] (7::nat) = Some no_brake_vehicle"
    by (simp_all add: no_brake_vehicle_def)
  have c: "must_stop_loop (Some 100) [7 \<mapsto> fast_vehicle] [7] = Inr True"
    by (simp add: fast_vehicle_def no_brake_vehicle_def braking_distance_def py_truediv_def)
  have "b_max fast_vehicle > 0 \<longrightarrow>
      braking_distance fast_vehicle = Inr ((veh_v fast_vehicle)\<^sup>2 / (2 * b_max fast_vehicle))"
    using braking_distance_no_division_fault [of fast_vehicle] by blast
  with a(1) have "braking_distance fast_vehicle = Inr ((veh_v fast_vehicle)\<^sup>2 / (2 * b_max fast_vehicle))"
    by blast
  then have 1: "braking_distance fast_vehicle = Inr (225 / 4)"
    by (simp only: a(2))
  have "b_max no_brake_vehicle \<le> 0 \<longrightarrow> braking_distance no_brake_vehicle = Inr 0"
    using braking_distance_no_division_fault [of no_brake_vehicle] by blast
  with b(1) have 2: "braking_distance no_brake_vehicle = Inr 0" by blast
  have "b_max no_brake_vehicle \<le> 0 \<and> [7 \<mapsto> no_brake_vehicle] (7::nat) = Some no_brake_vehicle \<longrightarrow>
      must_stop_loop (Some 100) [7 \<mapsto> no_brake_vehicle] [7] =
      must_stop_loop (Some 100) [7 \<mapsto> no_brake_vehicle] []"
    using braking_distance_no_division_fault
      [of no_brake_vehicle "[7 \<mapsto> no_brake_vehicle]" 7 100 "[]"] by blast
  with b have "must_stop_loop (Some 100) [7 \<mapsto> no_brake_vehicle] [7] =
      must_stop_loop (Some 100) [7 \<mapsto> no_brake_vehicle] []" by blast
  then have 3: "must_stop_loop (Some 100) [7 \<mapsto> no_brake_vehicle] [7] = Inr False"
    by (simp only: must_stop_loop.simps)
  from 1 2 3 c show ?thesis by blast
qed

lemma must_stop_loop_iff:
  "must_stop_loop (Some p) tb q = Inr b \<Longrightarrow>
   b \<longleftrightarrow> (\<exists>i \<in> set q. \<exists>veh. tb i = Some veh \<and> veh_x veh < p \<and> b_max veh > 0 \<and>
                 (veh_v veh)\<^sup>2 / (2 * b_max veh) > p - veh_x veh)"
proof (induction q)
  case Nil
  then show ?case by simp
next
  case (Cons i q)
  from Cons.prems obtain veh where veh: "tb i = Some veh"
    by (auto split: option.splits)
  show ?case
  proof (cases "veh_x veh \<ge> p")
    case True
    with Cons veh show ?thesis by auto
  next
    case False
    show ?thesis
    proof (cases "b_max veh > 0 \<and> (veh_v veh)\<^sup>2 / (2 * b_max veh) > p - veh_x veh")
      case True
      with Cons.prems veh False show ?thesis
        by (auto simp: braking_distance_total Let_def)
    next
      case no: False
      with Cons.prems veh False have "must_stop_loop (Some p) tb q = Inr b"
        by (auto simp: braking_distance_total Let_def split: if_splits)
      from Cons.IH [OF this] veh False no show ?thesis by auto
    qed
  qed
qed

lemma stopped_loop_iff:
  "stopped_loop (Some p) tb q = Inr b \<Longrightarrow>
   b \<longleftrightarrow> \<not> (\<exists>i \<in> set q. \<exists>veh. tb i = Some veh \<and> veh_x veh < p \<and>
                   veh_v veh > STOPPED_THRESHOLD)"
proof (induction q)
  case Nil
  then show ?case by simp
next
  case (Cons i q)
  from Cons.prems obtain veh where veh: "tb i = Some veh"
    by (auto split: option.splits)
  show ?case
  proof (cases "veh_x veh < p \<and> veh_v veh > STOPPED_THRESHOLD")
    case True
    with Cons.prems veh show ?thesis by auto
  next
    case False
    with Cons.prems veh have "stopped_loop (Some p) tb q = Inr b"
      by (auto split: if_splits)
    from Cons.IH [OF this] veh False show ?thesis by auto
  qed
qed

lemma update_phantom_YELLOW:
  assumes "update_phantom sim sg = Inr sg'" and "state sg = YELLOW"
    and "stop_position sg = Some p"
  shows "\<exists>segment b.
      py_index (segments sim) (segment_index sg) = Inr segment \<and>
      (if yellow_hold sg
       then stopped_loop (Some p) (vehicles sim) (seg_vehicles segment) = Inr b \<and>
            yellow_hold sg' = (\<not> b)
       else must_stop_loop (Some p) (vehicles sim) (seg_vehicles segment) = Inr b \<and>
            yellow_hold sg' = b) \<and>
      phantom sg' =
        (if yellow_hold sg'
         then Some \<lparr>path = [], current_road_index = 0, veh_x = p, veh_v = 0, veh_a = 0,
                    veh_l = 0, s0 = 0, v_max = 0, a_max = 0, b_max = 0\<rparr>
         else None)"
proof -
  let ?ph = "\<lparr>path = [], current_road_index = 0, veh_x = p, veh_v = 0, veh_a = 0,
               veh_l = 0, s0 = 0, v_max = 0, a_max = 0, b_max = 0\<rparr>"
  have mk: "make_phantom sg = Inr ?ph"
    using assms(3) by (simp add: make_phantom_def)
  from assms(2) have ng: "state sg \<noteq> GREEN" "state sg \<noteq> RED" by simp_all
  show ?thesis
  proof (cases "yellow_hold sg")
    case True
    with assms(1) ng have
      "bindE (all_blocked_vehicles_stopped sim sg) (\<lambda>stopped.
          if stopped then Inr (sg\<lparr>yellow_hold := False, phantom := None\<rparr>)
          else bindE (make_phantom sg) (\<lambda>ph. Inr (sg\<lparr>phantom := Some ph\<rparr>))) = Inr sg'"
      by (simp add: update_phantom_def)
    then obtain b where
      ab: "all_blocked_vehicles_stopped sim sg = Inr b" and
      r: "(if b then Inr (sg\<lparr>yellow_hold := False, phantom := None\<rparr>)
           else bindE (make_phantom sg) (\<lambda>ph. Inr (sg\<lparr>phantom := Some ph\<rparr>))) = Inr sg'"
      unfolding bindE_eq_Inr by blast
    from ab obtain segment where
      seg: "py_index (segments sim) (segment_index sg) = Inr segment" and
      lp: "stopped_loop (Some p) (vehicles sim) (seg_vehicles segment) = Inr b"
      unfolding all_blocked_vehicles_stopped_def bindE_eq_Inr assms(3) by blast
    have "yellow_hold sg' = (\<not> b) \<and> phantom sg' = (if yellow_hold sg' then Some ?ph else None)"
    proof (cases b)
      case True
      with r have "sg' = sg\<lparr>yellow_hold := False, phantom := None\<rparr>" by simp
      with True show ?thesis by simp
    next
      case False
      with r mk have "sg' = sg\<lparr>phantom := Some ?ph\<rparr>" by simp
      with False \<open>yellow_hold sg\<close> show ?thesis by simp
    qed
    with seg lp True show ?thesis by auto
  next
    case False
    with assms(1) ng have
      "bindE (any_vehicle_must_stop sim sg) (\<lambda>must.
          if must then
            bindE (make_phantom sg) (\<lambda>ph. Inr (sg\<lparr>yellow_hold := True, phantom := Some ph\<rparr>))
          else Inr (sg\<lparr>phantom := None\<rparr>)) = Inr sg'"
      by (simp add: update_phantom_def)
    then obtain b where
      ab: "any_vehicle_must_stop sim sg = Inr b" and
      r: "(if b then
            bindE (make_phantom sg) (\<lambda>ph. Inr (sg\<lparr>yellow_hold := True, phantom := Some ph\<rparr>))
          else Inr (sg\<lparr>phantom := None\<rparr>)) = Inr sg'"
      unfolding bindE_eq_Inr by blast
    from ab obtain segment where
      seg: "py_index (segments sim) (segment_index sg) = Inr segment" and
      lp: "must_stop_loop (Some p) (vehicles sim) (seg_vehicles segment) = Inr b"
      unfolding any_vehicle_must_stop_def bindE_eq_Inr assms(3) by blast
    have "yellow_hold sg' = b \<and> phantom sg' = (if yellow_hold sg' then Some ?ph else None)"
    proof (cases b)
      case True
      with r mk have "sg' = sg\<lparr>yellow_hold := True, phantom := Some ?ph\<rparr>" by simp
      with True show ?thesis by simp
    next
      case nb: False
      with r have "sg' = sg\<lparr>phantom := None\<rparr>" by simp
      with nb \<open>\<not> yellow_hold sg\<close> show ?thesis by simp
    qed
    with seg lp False show ?thesis by auto
  qed
qed

lemma resolve_position_fields:
  assumes "resolve_position sim sg = Inr sg1"
  shows "yellow_hold sg1 = yellow_hold sg" "segment_index sg1 = segment_index sg"
    "cycle_time sg1 = cycle_time sg" "green_duration sg1 = green_duration sg"
    "yellow_duration sg1 = yellow_duration sg" "red_duration sg1 = red_duration sg"
  using assms
  by (auto simp: resolve_position_def bindE_eq_Inr Let_def split: if_splits)

text \<open>
  C2. An update that ends in YELLOW, with resolved stop position \<open>p\<close>, reads the
  queue of the guarded segment. With no hold latched before the update, the hold is
  latched by it exactly when some vehicle of the queue with \<open>x < p\<close> has braking
  distance \<open>v\<^sup>2 / (2 * b_max)\<close> (with \<open>b_max > 0\<close>) strictly greater than \<open>p - x\<close>.
  With the hold latched before the update, it stays latched exactly when some vehicle
  of the queue with \<open>x < p\<close> is faster than the stopped threshold 0.05, whatever the
  braking check says; otherwise it is released. After the update the phantom stands at
  \<open>p\<close> if the hold is latched and is None if not. Vehicles with \<open>x \<ge> p\<close> count in
  neither check.
\<close>

theorem yellow_hysteresis:
  assumes "signal_update sim dt sg = Inr sg'" and "state sg' = YELLOW"
    and "stop_position sg' = Some p"
  shows "\<exists>segment.
      py_index (segments sim) (segment_index sg) = Inr segment \<and>
      (\<not> yellow_hold sg \<longrightarrow>
         (yellow_hold sg' \<longleftrightarrow>
            (\<exists>i \<in> set (seg_vehicles segment). \<exists>veh. vehicles sim i = Some veh \<and>
               veh_x veh < p \<and> b_max veh > 0 \<and>
               (veh_v veh)\<^sup>2 / (2 * b_max veh) > p - veh_x veh))) \<and>
      (yellow_hold sg \<longrightarrow>
         (yellow_hold sg' \<longleftrightarrow>
            (\<exists>i \<in> set (seg_vehicles segment). \<exists>veh. vehicles sim i = Some veh \<and>
               veh_x veh < p \<and> veh_v veh > STOPPED_THRESHOLD))) \<and>
      phantom sg' =
        (if yellow_hold sg'
         then Some \<lparr>path = [], current_road_index = 0, veh_x = p, veh_v = 0, veh_a = 0,
                    veh_l = 0, s0 = 0, v_max = 0, a_max = 0, b_max = 0\<rparr>
         else None)"
proof -
  from assms(1) obtain sg1 where
    res: "resolve_position sim sg = Inr sg1" and
    up: "update_phantom sim (set_phase (advance_clock dt sg1)) = Inr sg'"
    by (auto simp: signal_update_Inr)
  let ?s = "set_phase (advance_clock dt sg1)"
  have st: "state ?s = YELLOW" and sp: "stop_position ?s = Some p"
    using update_phantom_fields(1,3) [OF up] assms(2,3) by simp_all
  have hold: "yellow_hold ?s = yellow_hold sg" and idx: "segment_index ?s = segment_index sg"
    using resolve_position_fields(1,2) [OF res] by simp_all
  from update_phantom_YELLOW [OF up st sp] obtain segment b where
    seg: "py_index (segments sim) (segment_index sg) = Inr segment" and
    loop: "if yellow_hold sg
       then stopped_loop (Some p) (vehicles sim) (seg_vehicles segment) = Inr b \<and>
            yellow_hold sg' = (\<not> b)
       else must_stop_loop (Some p) (vehicles sim) (seg_vehicles segment) = Inr b \<and>
            yellow_hold sg' = b" and
    ph: "phantom sg' =
        (if yellow_hold sg'
         then Some \<lparr>path = [], current_road_index = 0, veh_x = p, veh_v = 0, veh_a = 0,
                    veh_l = 0, s0 = 0, v_max = 0, a_max = 0, b_max = 0\<rparr>
         else None)"
    unfolding hold idx by blast
  have trigger: "\<not> yellow_hold sg \<longrightarrow>
         (yellow_hold sg' \<longleftrightarrow>
            (\<exists>i \<in> set (seg_vehicles segment). \<exists>veh. vehicles sim i = Some veh \<and>
               veh_x veh < p \<and> b_max veh > 0 \<and>
               (veh_v veh)\<^sup>2 / (2 * b_max veh) > p - veh_x veh))"
  proof
    assume "\<not> yellow_hold sg"
    with loop have "must_stop_loop (Some p) (vehicles sim) (seg_vehicles segment) = Inr b"
      and "yellow_hold sg' = b" by simp_all
    with must_stop_loop_iff [OF this(1)]
    show "yellow_hold sg' \<longleftrightarrow>
            (\<exists>i \<in> set (seg_vehicles segment). \<exists>veh. vehicles sim i = Some veh \<and>
               veh_x veh < p \<and> b_max veh > 0 \<and>
               (veh_v veh)\<^sup>2 / (2 * b_max veh) > p - veh_x veh)"
      by blast
  qed
  have release: "yellow_hold sg \<longrightarrow>
         (yellow_hold sg' \<longleftrightarrow>
            (\<exists>i \<in> set (seg_vehicles segment). \<exists>veh. vehicles sim i = Some veh \<and>
               veh_x veh < p \<and> veh_v veh > STOPPED_THRESHOLD))"
  proof
    assume "yellow_hold sg"
    with loop have "stopped_loop (Some p) (vehicles sim) (seg_vehicles segment) = Inr b"
      and "yellow_hold sg' = (\<not> b)" by simp_all
    with stopped_loop_iff [OF this(1)]
    show "yellow_hold sg' \<longleftrightarrow>
            (\<exists>i \<in> set (seg_vehicles segment). \<exists>veh. vehicles sim i = Some veh \<and>
               veh_x veh < p \<and> veh_v veh > STOPPED_THRESHOLD)"
      by blast
  qed
  from seg trigger release ph show ?thesis by blast
qed

lemmas vehicle_defs =
  fast_vehicle_def no_brake_vehicle_def slowing_vehicle_def stopped_vehicle_def
  braking_distance_def py_truediv_def STOPPED_THRESHOLD_def

theorem yellow_hysteresis_witness:
  "signal_update (sim_with_vehicle fast_vehicle) 2 (TrafficSignal_init (Some yellow_config)) =
     Inr yellow_latched \<and>
   signal_update (sim_with_vehicle slowing_vehicle) 1 yellow_latched =
     Inr (yellow_latched\<lparr>cycle_time := 3\<rparr>) \<and>
   signal_update (sim_with_vehicle stopped_vehicle) 1 (yellow_latched\<lparr>cycle_time := 3\<rparr>) =
     Inr (yellow_latched\<lparr>cycle_time := 4, yellow_hold := False, phantom := None\<rparr>) \<and>
   (yellow_hold yellow_latched \<longleftrightarrow>
      (\<exists>i \<in> set [7]. \<exists>veh. [7 \<mapsto> fast_vehicle] i = Some veh \<and>
          veh_x veh < 100 \<and> b_max veh > 0 \<and>
          (veh_v veh)\<^sup>2 / (2 * b_max veh) > 100 - veh_x veh)) \<and>
   (yellow_hold (yellow_latched\<lparr>cycle_time := 3\<rparr>) \<longleftrightarrow>
      (\<exists>i \<in> set [7]. \<exists>veh. [7 \<mapsto> slowing_vehicle] i = Some veh \<and>
          veh_x veh < 100 \<and> veh_v veh > STOPPED_THRESHOLD)) \<and>
   (yellow_hold (yellow_latched\<lparr>cycle_time := 4, yellow_hold := False, phantom := None\<rparr>) \<longleftrightarrow>
      (\<exists>i \<in> set [7]. \<exists>veh. [7 \<mapsto> stopped_vehicle] i = Some veh \<and>
          veh_x veh < 100 \<and> veh_v veh > STOPPED_THRESHOLD))"
proof -
  have seg: "py_index (segments (sim_with_vehicle veh)) 0 = Inr \<lparr>get_length = 200, seg_vehicles = [7]\<rparr>"
    for veh
    by (simp add: sim_with_vehicle_def py_index_def py_norm_index_def)
  have tb: "vehicles (sim_with_vehicle veh) = [7 \<mapsto> veh]" for veh
    by (simp add: sim_with_vehicle_def)
  have idx: "segment_index (TrafficSignal_init (Some yellow_config)) = 0"
    "segment_index yellow_latched = 0"
    by (simp_all add: TrafficSignal_init_def yellow_config_def yellow_latched_def)
  have fresh: "\<not> yellow_hold (TrafficSignal_init (Some yellow_config))"
    by (simp add: TrafficSignal_init_def)
  have 1: "signal_update (sim_with_vehicle fast_vehicle) 2 (TrafficSignal_init (Some yellow_config)) =
     Inr yellow_latched"
    by (simp add: signal_defs vehicle_defs sim_with_vehicle_def yellow_config_def yellow_latched_def)
  have 2: "signal_update (sim_with_vehicle slowing_vehicle) 1 yellow_latched =
     Inr (yellow_latched\<lparr>cycle_time := 3\<rparr>)"
    by (simp add: signal_defs vehicle_defs sim_with_vehicle_def yellow_latched_def)
  have 3: "signal_update (sim_with_vehicle stopped_vehicle) 1 (yellow_latched\<lparr>cycle_time := 3\<rparr>) =
     Inr (yellow_latched\<lparr>cycle_time := 4, yellow_hold := False, phantom := None\<rparr>)"
    by (simp add: signal_defs vehicle_defs sim_with_vehicle_def yellow_latched_def)
  have y: "state yellow_latched = YELLOW" "stop_position yellow_latched = Some 100"
    "yellow_hold yellow_latched"
    by (simp_all add: yellow_latched_def)
  have t1: "yellow_hold yellow_latched \<longleftrightarrow>
      (\<exists>i \<in> set [7]. \<exists>veh. [7 \<mapsto> fast_vehicle] i = Some veh \<and>
          veh_x veh < 100 \<and> b_max veh > 0 \<and>
          (veh_v veh)\<^sup>2 / (2 * b_max veh) > 100 - veh_x veh)"
    using yellow_hysteresis [OF 1 y(1,2)] fresh
    by (simp add: seg tb idx)
  have t2: "yellow_hold (yellow_latched\<lparr>cycle_time := 3\<rparr>) \<longleftrightarrow>
      (\<exists>i \<in> set [7]. \<exists>veh. [7 \<mapsto> slowing_vehicle] i = Some veh \<and>
          veh_x veh < 100 \<and> veh_v veh > STOPPED_THRESHOLD)"
    using yellow_hysteresis [OF 2, of 100] y
    by (simp add: seg tb idx)
  have t3: "yellow_hold (yellow_latched\<lparr>cycle_time := 4, yellow_hold := False, phantom := None\<rparr>) \<longleftrightarrow>
      (\<exists>i \<in> set [7]. \<exists>veh. [7 \<mapsto> stopped_vehicle] i = Some veh \<and>
          veh_x veh < 100 \<and> veh_v veh > STOPPED_THRESHOLD)"
    using yellow_hysteresis [OF 3, of 100] y
    by (simp add: seg tb idx)
  from 1 2 3 t1 t2 t3 show ?thesis by blast
qed

section \<open>The signal: clock and phases\<close>

lemma signal_update_clock:
  assumes "signal_update sim dt sg = Inr sg'"
  shows "cycle_time sg' =
           (if cycle_time sg + dt \<ge> cycle_duration sg
            then cycle_time sg + dt - cycle_duration sg else cycle_time sg + dt)"
    and "state sg' = spec_phase (green_duration sg) (yellow_duration sg) (cycle_time sg')"
    and "green_duration sg' = green_duration sg" and "yellow_duration sg' = yellow_duration sg"
    and "red_duration sg' = red_duration sg" and "segment_index sg' = segment_index sg"
proof -
  from assms obtain sg1 where
    res: "resolve_position sim sg = Inr sg1" and
    up: "update_phantom sim (set_phase (advance_clock dt sg1)) = Inr sg'"
    by (auto simp: signal_update_Inr)
  note f = resolve_position_fields [OF res] and u = update_phantom_fields [OF up]
  show "green_duration sg' = green_duration sg" "yellow_duration sg' = yellow_duration sg"
    "red_duration sg' = red_duration sg" "segment_index sg' = segment_index sg"
    using f u by simp_all
  have cd: "cycle_duration sg1 = cycle_duration sg"
    using f by (simp add: cycle_duration_def)
  show ct: "cycle_time sg' =
           (if cycle_time sg + dt \<ge> cycle_duration sg
            then cycle_time sg + dt - cycle_duration sg else cycle_time sg + dt)"
    using u(4) f(3) cd by (simp add: advance_clock_def set_phase_def Let_def)
  have "state sg' = phase_of_clock (advance_clock dt sg1)"
    using u(3) by simp
  also have "\<dots> = spec_phase (green_duration sg) (yellow_duration sg) (cycle_time (advance_clock dt sg1))"
    using f by (simp add: phase_of_clock_def spec_phase_def advance_clock_def Let_def)
  also have "cycle_time (advance_clock dt sg1) = cycle_time sg'"
    using u(4) by simp
  finally show "state sg' = spec_phase (green_duration sg) (yellow_duration sg) (cycle_time sg')" .
qed

lemma single_wrap_is_modulo:
  fixes z c :: real
  assumes "0 < c" and "0 \<le> z" and "z < 2 * c"
  shows "(if z \<ge> c then z - c else z) = z - c * of_int \<lfloor>z / c\<rfloor>"
proof (cases "z \<ge> c")
  case True
  with assms have "1 \<le> z / c" "z / c < 2" by (simp_all add: field_simps)
  then have "\<lfloor>z / c\<rfloor> = 1" by linarith
  with True show ?thesis by simp
next
  case False
  with assms have "0 \<le> z / c" "z / c < 1" by (simp_all add: field_simps)
  then have "\<lfloor>z / c\<rfloor> = 0" by linarith
  with False show ?thesis by simp
qed

lemma updates_append:
  "updates (xs @ ys) sg = bindE (updates xs sg) (updates ys)"
proof (induction xs arbitrary: sg)
  case Nil
  then show ?case by simp
next
  case (Cons step xs)
  obtain sim dt where "step = (sim, dt)" by (cases step)
  with Cons show ?case by (cases "signal_update sim dt sg") simp_all
qed

lemma updates_Suc:
  "updates (replicate (Suc n) (sim, dt)) sg =
     bindE (updates (replicate n (sim, dt)) sg) (signal_update sim dt)"
proof -
  have "replicate (Suc n) (sim, dt) = replicate n (sim, dt) @ [(sim, dt)]"
    by (simp add: replicate_append_same)
  then have "updates (replicate (Suc n) (sim, dt)) sg =
      bindE (updates (replicate n (sim, dt)) sg) (updates [(sim, dt)])"
    by (simp only: updates_append)
  moreover have "updates [(sim, dt)] = signal_update sim dt"
    by (rule ext) (simp add: bindE_def split: sum.splits)
  ultimately show ?thesis by simp
qed

lemma run_clock:
  assumes "updates (replicate n (sim, dt)) sg = Inr sg'"
    and "cycle_time sg = 0" and "0 < dt" and "0 < cycle_duration sg"
    and "real n * dt < cycle_duration sg + dt"
  shows "green_duration sg' = green_duration sg \<and> yellow_duration sg' = yellow_duration sg \<and>
         red_duration sg' = red_duration sg \<and>
         cycle_time sg' =
           (if real n * dt < cycle_duration sg then real n * dt
            else real n * dt - cycle_duration sg)"
  using assms
proof (induction n arbitrary: sg')
  case 0
  then show ?case by simp
next
  case (Suc n)
  from Suc.prems(1) obtain s where
    run: "updates (replicate n (sim, dt)) sg = Inr s" and
    step: "signal_update sim dt s = Inr sg'"
    unfolding updates_Suc bindE_eq_Inr by blast
  from Suc.prems(5) have before: "real n * dt < cycle_duration sg"
    by (simp add: algebra_simps)
  with Suc.prems(3) have "real n * dt < cycle_duration sg + dt" by simp
  from Suc.IH [OF run Suc.prems(2,3,4) this] before have
    d: "green_duration s = green_duration sg" "yellow_duration s = yellow_duration sg"
      "red_duration s = red_duration sg" and
    c: "cycle_time s = real n * dt"
    by simp_all
  have cd: "cycle_duration s = cycle_duration sg"
    using d by (simp add: cycle_duration_def)
  have "real (Suc n) * dt = real n * dt + dt" by (simp add: algebra_simps)
  with signal_update_clock [OF step] d c cd show ?case by auto
qed

lemma run_state:
  assumes "updates (replicate n (sim, dt)) sg = Inr sg'"
    and "cycle_time sg = 0" and "state sg = GREEN" and "0 < dt" and "dt \<le> green_duration sg"
    and "0 < cycle_duration sg" and "real n * dt < cycle_duration sg + dt"
  shows "state sg' = spec_phase (green_duration sg) (yellow_duration sg) (cycle_time sg')"
proof (cases n)
  case 0
  with assms show ?thesis by (simp add: spec_phase_def)
next
  case (Suc m)
  from assms(1) obtain s where
    run: "updates (replicate m (sim, dt)) sg = Inr s" and
    step: "signal_update sim dt s = Inr sg'"
    unfolding Suc updates_Suc bindE_eq_Inr by blast
  from assms(4,7) Suc have "real m * dt < cycle_duration sg + dt"
    by (simp add: algebra_simps)
  from run_clock [OF run assms(2,4,6) this] signal_update_clock(2) [OF step]
  show ?thesis by simp
qed

lemma tick_after:
  fixes dt b :: real
  assumes "0 < dt" and "0 \<le> b"
  shows "\<exists>k::nat. b \<le> real k * dt \<and> real k * dt < b + dt"
proof -
  define k where "k = nat \<lceil>b / dt\<rceil>"
  from assms have "0 \<le> b / dt" by simp
  then have "0 \<le> \<lceil>b / dt\<rceil>" by linarith
  then have rk: "real k = of_int \<lceil>b / dt\<rceil>" by (simp add: k_def)
  have "b / dt \<le> real k" "real k < b / dt + 1"
    unfolding rk by linarith+
  with assms(1) have "b \<le> real k * dt" "real k * dt < b + dt"
    by (simp_all add: field_simps)
  then show ?thesis by blast
qed

lemma must_stop_loop_total:
  "\<forall>i \<in> set q. tb i \<noteq> None \<Longrightarrow> \<exists>b. must_stop_loop (Some p) tb q = Inr b"
  by (induction q) (auto simp: braking_distance_total Let_def)

lemma stopped_loop_total:
  "\<forall>i \<in> set q. tb i \<noteq> None \<Longrightarrow> \<exists>b. stopped_loop (Some p) tb q = Inr b"
  by (induction q) auto

lemma update_phantom_total:
  assumes "py_index (segments sim) (segment_index sg) = Inr segment"
    and "\<forall>i \<in> set (seg_vehicles segment). vehicles sim i \<noteq> None"
    and "stop_position sg = Some p"
  shows "\<exists>sg'. update_phantom sim sg = Inr sg'"
proof -
  from must_stop_loop_total [OF assms(2)] obtain m where
    m: "must_stop_loop (Some p) (vehicles sim) (seg_vehicles segment) = Inr m" by blast
  from stopped_loop_total [OF assms(2)] obtain st where
    st: "stopped_loop (Some p) (vehicles sim) (seg_vehicles segment) = Inr st" by blast
  show ?thesis
    by (simp add: update_phantom_def any_vehicle_must_stop_def all_blocked_vehicles_stopped_def
        make_phantom_def assms(1,3) m st)
qed

lemma signal_update_total:
  assumes "py_index (segments sim) (segment_index sg) = Inr segment"
    and "\<forall>i \<in> set (seg_vehicles segment). vehicles sim i \<noteq> None"
    and "position_resolved sg \<longrightarrow> stop_position sg \<noteq> None"
  shows "\<exists>sg'. signal_update sim dt sg = Inr sg'"
proof -
  obtain sg1 p where
    res: "resolve_position sim sg = Inr sg1" and sp: "stop_position sg1 = Some p"
    and idx: "segment_index sg1 = segment_index sg"
    using assms(1,3)
    by (cases "position_resolved sg"; cases "stop_position sg")
      (auto simp: resolve_position_def Let_def)
  let ?s = "set_phase (advance_clock dt sg1)"
  have "\<exists>sg'. update_phantom sim ?s = Inr sg'"
    using update_phantom_total [of sim ?s segment p] assms(1,2) sp idx by simp
  with res show ?thesis by (simp add: signal_update_def)
qed

lemma updates_total:
  assumes "py_index (segments sim) (segment_index sg) = Inr segment"
    and "\<forall>i \<in> set (seg_vehicles segment). vehicles sim i \<noteq> None"
    and "position_resolved sg \<longrightarrow> stop_position sg \<noteq> None"
  shows "\<exists>sg'. updates (replicate n (sim, dt)) sg = Inr sg' \<and>
           segment_index sg' = segment_index sg \<and>
           (position_resolved sg' \<longrightarrow> stop_position sg' \<noteq> None)"
proof (induction n)
  case 0
  from assms(3) show ?case by simp
next
  case (Suc n)
  then obtain s where
    run: "updates (replicate n (sim, dt)) sg = Inr s" and
    idx: "segment_index s = segment_index sg" and
    sp: "position_resolved s \<longrightarrow> stop_position s \<noteq> None"
    by blast
  from signal_update_total [of sim s segment dt] assms(1,2) idx sp obtain sg' where
    step: "signal_update sim dt s = Inr sg'" by auto
  have "segment_index sg' = segment_index sg"
    using signal_update_clock(6) [OF step] idx by simp
  moreover have "stop_position sg' \<noteq> None"
    using signal_update_stop_position(2,3) [OF step] sp
    by (cases "position_resolved s") auto
  moreover have "updates (replicate (Suc n) (sim, dt)) sg = Inr sg'"
    unfolding updates_Suc run using step by simp
  ultimately show ?case by blast
qed

text \<open>
  C4, as the code has it. A signal as constructed has clock 0 and phase GREEN. Each
  update adds \<open>dt\<close> to the clock and subtracts the cycle duration once if the sum has
  reached it; this is the sum modulo the cycle duration whenever the cycle duration is
  positive and the sum lies in \<open>[0, 2 * cycle)\<close>. The phase after the update is GREEN
  if the new clock is below the green duration, YELLOW if it is below green plus yellow,
  RED otherwise. For a fresh signal whose guarded segment exists and whose queue holds
  known vehicles only, and a step \<open>0 < dt\<close> that is at most each of the three durations:
  every run of \<open>n\<close> updates returns, and up to the tick that completes the cycle the
  clock is \<open>n * dt\<close> and the phase is GREEN while \<open>n * dt\<close> is below green, YELLOW from
  there to green plus yellow, RED from there to the cycle duration, and GREEN again at
  the tick that reaches the cycle duration, where the clock has wrapped to
  \<open>n * dt - cycle\<close>. Each of the three boundaries is followed by a tick less than
  \<open>dt\<close> after it.
\<close>

theorem signal_cycle_phases:
  "cycle_time (TrafficSignal_init config) = 0 \<and> state (TrafficSignal_init config) = GREEN \<and>
   (signal_update sim d s = Inr s' \<longrightarrow>
      cycle_time s' =
        (if cycle_time s + d \<ge> cycle_duration s then cycle_time s + d - cycle_duration s
         else cycle_time s + d) \<and>
      state s' = spec_phase (green_duration s) (yellow_duration s) (cycle_time s') \<and>
      (0 < cycle_duration s \<and> 0 \<le> cycle_time s + d \<and> cycle_time s + d < 2 * cycle_duration s \<longrightarrow>
         cycle_time s' = spec_wrapped_clock (cycle_time s) d (cycle_duration s))) \<and>
   (sg0 = TrafficSignal_init config \<and>
    py_index (segments sim) (segment_index sg0) = Inr segment \<and>
    (\<forall>i \<in> set (seg_vehicles segment). vehicles sim i \<noteq> None) \<and>
    0 < dt \<and> dt \<le> green_duration sg0 \<and> dt \<le> yellow_duration sg0 \<and> dt \<le> red_duration sg0 \<longrightarrow>
      (\<exists>sg'. updates (replicate n (sim, dt)) sg0 = Inr sg' \<and>
         (real n * dt < cycle_duration sg0 + dt \<longrightarrow>
            cycle_time sg' =
              (if real n * dt < cycle_duration sg0 then real n * dt
               else real n * dt - cycle_duration sg0) \<and>
            state sg' =
              (if real n * dt < green_duration sg0 then GREEN
               else if real n * dt < green_duration sg0 + yellow_duration sg0 then YELLOW
               else if real n * dt < cycle_duration sg0 then RED
               else GREEN))) \<and>
      (\<exists>kY kR kG::nat.
         green_duration sg0 \<le> real kY * dt \<and> real kY * dt < green_duration sg0 + dt \<and>
         green_duration sg0 + yellow_duration sg0 \<le> real kR * dt \<and>
         real kR * dt < green_duration sg0 + yellow_duration sg0 + dt \<and>
         cycle_duration sg0 \<le> real kG * dt \<and> real kG * dt < cycle_duration sg0 + dt))"
proof -
  have init: "cycle_time (TrafficSignal_init config) = 0" "state (TrafficSignal_init config) = GREEN"
    by (simp_all add: TrafficSignal_init_fresh)
  have step: "signal_update sim d s = Inr s' \<longrightarrow>
      cycle_time s' =
        (if cycle_time s + d \<ge> cycle_duration s then cycle_time s + d - cycle_duration s
         else cycle_time s + d) \<and>
      state s' = spec_phase (green_duration s) (yellow_duration s) (cycle_time s') \<and>
      (0 < cycle_duration s \<and> 0 \<le> cycle_time s + d \<and> cycle_time s + d < 2 * cycle_duration s \<longrightarrow>
         cycle_time s' = spec_wrapped_clock (cycle_time s) d (cycle_duration s))"
  proof
    assume u: "signal_update sim d s = Inr s'"
    note c = signal_update_clock(1,2) [OF u]
    have "cycle_time s' = spec_wrapped_clock (cycle_time s) d (cycle_duration s)"
      if "0 < cycle_duration s \<and> 0 \<le> cycle_time s + d \<and> cycle_time s + d < 2 * cycle_duration s"
      using that c(1) single_wrap_is_modulo [of "cycle_duration s" "cycle_time s + d"]
      by (simp add: spec_wrapped_clock_def)
    with c show "cycle_time s' =
        (if cycle_time s + d \<ge> cycle_duration s then cycle_time s + d - cycle_duration s
         else cycle_time s + d) \<and>
      state s' = spec_phase (green_duration s) (yellow_duration s) (cycle_time s') \<and>
      (0 < cycle_duration s \<and> 0 \<le> cycle_time s + d \<and> cycle_time s + d < 2 * cycle_duration s \<longrightarrow>
         cycle_time s' = spec_wrapped_clock (cycle_time s) d (cycle_duration s))"
      by blast
  qed
  have run: "(\<exists>sg'. updates (replicate n (sim, dt)) sg0 = Inr sg' \<and>
         (real n * dt < cycle_duration sg0 + dt \<longrightarrow>
            cycle_time sg' =
              (if real n * dt < cycle_duration sg0 then real n * dt
               else real n * dt - cycle_duration sg0) \<and>
            state sg' =
              (if real n * dt < green_duration sg0 then GREEN
               else if real n * dt < green_duration sg0 + yellow_duration sg0 then YELLOW
               else if real n * dt < cycle_duration sg0 then RED
               else GREEN))) \<and>
      (\<exists>kY kR kG::nat.
         green_duration sg0 \<le> real kY * dt \<and> real kY * dt < green_duration sg0 + dt \<and>
         green_duration sg0 + yellow_duration sg0 \<le> real kR * dt \<and>
         real kR * dt < green_duration sg0 + yellow_duration sg0 + dt \<and>
         cycle_duration sg0 \<le> real kG * dt \<and> real kG * dt < cycle_duration sg0 + dt)"
    if h: "sg0 = TrafficSignal_init config \<and>
      py_index (segments sim) (segment_index sg0) = Inr segment \<and>
      (\<forall>i \<in> set (seg_vehicles segment). vehicles sim i \<noteq> None) \<and>
      0 < dt \<and> dt \<le> green_duration sg0 \<and> dt \<le> yellow_duration sg0 \<and> dt \<le> red_duration sg0"
  proof -
    let ?g = "green_duration sg0" and ?y = "yellow_duration sg0" and ?c = "cycle_duration sg0"
    from h have e: "sg0 = TrafficSignal_init config"
      and guard: "py_index (segments sim) (segment_index sg0) = Inr segment"
        "\<forall>i \<in> set (seg_vehicles segment). vehicles sim i \<noteq> None"
      and d: "0 < dt" "dt \<le> green_duration sg0" "dt \<le> yellow_duration sg0"
        "dt \<le> red_duration sg0"
      by blast+
    have fresh: "cycle_time sg0 = 0" "state sg0 = GREEN" "\<not> position_resolved sg0"
      unfolding e by (simp_all add: TrafficSignal_init_fresh)
    from d have pos: "0 < dt" "dt \<le> ?g" "0 < ?g" "0 \<le> ?y" "?g + ?y < ?c" "0 < ?c" "dt \<le> ?y"
      unfolding cycle_duration_def by linarith+
    from fresh(3) updates_total [OF guard, of n dt] obtain sg' where
      r: "updates (replicate n (sim, dt)) sg0 = Inr sg'" by auto
    have "cycle_time sg' =
              (if real n * dt < ?c then real n * dt else real n * dt - ?c) \<and>
            state sg' =
              (if real n * dt < ?g then GREEN
               else if real n * dt < ?g + ?y then YELLOW
               else if real n * dt < ?c then RED
               else GREEN)"
      if b: "real n * dt < ?c + dt"
    proof -
      from run_clock [OF r fresh(1) pos(1,6) b] have
        ct: "cycle_time sg' = (if real n * dt < ?c then real n * dt else real n * dt - ?c)"
        by simp
      from run_state [OF r fresh(1,2) pos(1,2,6) b] have
        st: "state sg' = spec_phase ?g ?y (cycle_time sg')" .
      have "spec_phase ?g ?y (cycle_time sg') =
              (if real n * dt < ?g then GREEN
               else if real n * dt < ?g + ?y then YELLOW
               else if real n * dt < ?c then RED
               else GREEN)"
        using ct b pos by (auto simp: spec_phase_def)
      with ct st show ?thesis by simp
    qed
    with r have first: "\<exists>sg'. updates (replicate n (sim, dt)) sg0 = Inr sg' \<and>
         (real n * dt < ?c + dt \<longrightarrow>
            cycle_time sg' =
              (if real n * dt < ?c then real n * dt else real n * dt - ?c) \<and>
            state sg' =
              (if real n * dt < ?g then GREEN
               else if real n * dt < ?g + ?y then YELLOW
               else if real n * dt < ?c then RED
               else GREEN))"
      by blast
    from tick_after [OF pos(1), of ?g] pos obtain kY :: nat where
      "?g \<le> real kY * dt \<and> real kY * dt < ?g + dt" by auto
    moreover from tick_after [OF pos(1), of "?g + ?y"] pos obtain kR :: nat where
      "?g + ?y \<le> real kR * dt \<and> real kR * dt < ?g + ?y + dt" by auto
    moreover from tick_after [OF pos(1), of ?c] pos obtain kG :: nat where
      "?c \<le> real kG * dt \<and> real kG * dt < ?c + dt" by auto
    ultimately show ?thesis using first by blast
  qed
  from init step run show ?thesis by blast
qed

theorem signal_cycle_phases_witness:
  "(\<exists>sg'. updates (replicate 9 (sim50, 1)) (TrafficSignal_init None) = Inr sg' \<and>
      cycle_time sg' = 9 \<and> state sg' = GREEN) \<and>
   (\<exists>sg'. updates (replicate 10 (sim50, 1)) (TrafficSignal_init None) = Inr sg' \<and>
      cycle_time sg' = 10 \<and> state sg' = YELLOW) \<and>
   (\<exists>sg'. updates (replicate 13 (sim50, 1)) (TrafficSignal_init None) = Inr sg' \<and>
      cycle_time sg' = 13 \<and> state sg' = RED) \<and>
   (\<exists>sg'. updates (replicate 23 (sim50, 1)) (TrafficSignal_init None) = Inr sg' \<and>
      cycle_time sg' = 0 \<and> state sg' = GREEN)"
proof -
  let ?sg0 = "TrafficSignal_init None"
  let ?seg = "\<lparr>get_length = 50, seg_vehicles = []\<rparr>"
  have h: "?sg0 = TrafficSignal_init None \<and>
    py_index (segments sim50) (segment_index ?sg0) = Inr ?seg \<and>
    (\<forall>i \<in> set (seg_vehicles ?seg). vehicles sim50 i \<noteq> None) \<and>
    (0::real) < 1 \<and> 1 \<le> green_duration ?sg0 \<and> 1 \<le> yellow_duration ?sg0 \<and>
    1 \<le> red_duration ?sg0"
    by (simp add: TrafficSignal_init_default sim50_def py_index_0)
  have c: "cycle_duration ?sg0 = 23" "green_duration ?sg0 = 10" "yellow_duration ?sg0 = 3"
    by (simp_all add: cycle_duration_def TrafficSignal_init_default)
  have run: "\<exists>sg'. updates (replicate n (sim50, 1)) ?sg0 = Inr sg' \<and>
         (real n * 1 < cycle_duration ?sg0 + 1 \<longrightarrow>
            cycle_time sg' =
              (if real n * 1 < cycle_duration ?sg0 then real n * 1
               else real n * 1 - cycle_duration ?sg0) \<and>
            state sg' =
              (if real n * 1 < green_duration ?sg0 then GREEN
               else if real n * 1 < green_duration ?sg0 + yellow_duration ?sg0 then YELLOW
               else if real n * 1 < cycle_duration ?sg0 then RED
               else GREEN))" for n
    using signal_cycle_phases
      [where config = None and sim = sim50 and ?sg0.0 = ?sg0 and segment = ?seg and dt = 1 and n = n]
      h by blast
  from run [of 9] have 1: "\<exists>sg'. updates (replicate 9 (sim50, 1)) ?sg0 = Inr sg' \<and>
      cycle_time sg' = 9 \<and> state sg' = GREEN"
    unfolding c by simp
  from run [of 10] have 2: "\<exists>sg'. updates (replicate 10 (sim50, 1)) ?sg0 = Inr sg' \<and>
      cycle_time sg' = 10 \<and> state sg' = YELLOW"
    unfolding c by simp
  from run [of 13] have 3: "\<exists>sg'. updates (replicate 13 (sim50, 1)) ?sg0 = Inr sg' \<and>
      cycle_time sg' = 13 \<and> state sg' = RED"
    unfolding c by simp
  from run [of 23] have 4: "\<exists>sg'. updates (replicate 23 (sim50, 1)) ?sg0 = Inr sg' \<and>
      cycle_time sg' = 0 \<and> state sg' = GREEN"
    unfolding c by simp
  from 1 2 3 4 show ?thesis by blast
qed

theorem clock_wrap_counterexample:
  "map_sum id cycle_time (signal_update sim50 50 (TrafficSignal_init None)) = Inr 27 \<and>
   spec_wrapped_clock (cycle_time (TrafficSignal_init None)) 50
     (cycle_duration (TrafficSignal_init None)) = 4 \<and>
   map_sum id state (signal_update sim50 50 (TrafficSignal_init None)) = Inr RED \<and>
   spec_phase (green_duration (TrafficSignal_init None)) (yellow_duration (TrafficSignal_init None))
     (spec_wrapped_clock (cycle_time (TrafficSignal_init None)) 50
        (cycle_duration (TrafficSignal_init None))) = GREEN \<and>
   map_sum id state (updates [(sim50, 7)] (TrafficSignal_init None)) = Inr GREEN \<and>
   map_sum id state (updates [(sim50, 7), (sim50, 7)] (TrafficSignal_init None)) = Inr RED \<and>
   map_sum id state (updates [(sim50, 7), (sim50, 7), (sim50, 7)] (TrafficSignal_init None)) =
     Inr RED \<and>
   map_sum id state
     (updates [(sim50, 7), (sim50, 7), (sim50, 7), (sim50, 7)] (TrafficSignal_init None)) =
     Inr GREEN"
proof -
  have w: "spec_wrapped_clock (cycle_time (TrafficSignal_init None)) 50
     (cycle_duration (TrafficSignal_init None)) = 4"
    by (simp add: spec_wrapped_clock_def cycle_duration_def TrafficSignal_init_def empty_config_def)
  have 1: "map_sum id cycle_time (signal_update sim50 50 (TrafficSignal_init None)) = Inr 27"
    and 2: "map_sum id state (signal_update sim50 50 (TrafficSignal_init None)) = Inr RED"
    by (simp_all add: signal_defs sim50_def)
  have 3: "spec_phase (green_duration (TrafficSignal_init None))
     (yellow_duration (TrafficSignal_init None))
     (spec_wrapped_clock (cycle_time (TrafficSignal_init None)) 50
        (cycle_duration (TrafficSignal_init None))) = GREEN"
    unfolding w by (simp add: spec_phase_def TrafficSignal_init_default)
  have 4: "map_sum id state (updates [(sim50, 7)] (TrafficSignal_init None)) = Inr GREEN"
    and 5: "map_sum id state (updates [(sim50, 7), (sim50, 7)] (TrafficSignal_init None)) = Inr RED"
    and 6: "map_sum id state (updates [(sim50, 7), (sim50, 7), (sim50, 7)] (TrafficSignal_init None)) =
     Inr RED"
    and 7: "map_sum id state
     (updates [(sim50, 7), (sim50, 7), (sim50, 7), (sim50, 7)] (TrafficSignal_init None)) =
     Inr GREEN"
    by (simp_all add: signal_defs sim50_def)
  from w 1 2 3 4 5 6 7 show ?thesis by blast
qed

section \<open>The tick: signals, then vehicles\<close>

lemma update_signals_loop_Inr:
  "update_signals_loop sim ts = Inr ts' \<Longrightarrow>
   map fst ts' = map fst ts \<and>
   (\<forall>k sg'. map_of ts' k = Some sg' \<longrightarrow>
      (\<exists>sg. map_of ts k = Some sg \<and> signal_update sim (sim_dt sim) sg = Inr sg'))"
proof (induction ts arbitrary: ts')
  case Nil
  then show ?case by simp
next
  case (Cons p ts)
  obtain k sg where p: "p = (k, sg)" by (cases p)
  from Cons.prems obtain sg1 rest' where
    first: "signal_update sim (sim_dt sim) sg = Inr sg1" and
    rest: "update_signals_loop sim ts = Inr rest'" and
    ts': "ts' = (k, sg1) # rest'"
    by (auto simp: p bindE_eq_Inr)
  from Cons.IH [OF rest] first show ?case
    by (auto simp: p ts')
qed

lemma update_signals_Inr:
  assumes "update_signals sim = Inr s1"
  shows "s1 = sim\<lparr>traffic_signals := traffic_signals s1\<rparr>"
    and "map fst (traffic_signals s1) = map fst (traffic_signals sim)"
    and "map_of (traffic_signals s1) k = Some sg' \<Longrightarrow>
           \<exists>sg. map_of (traffic_signals sim) k = Some sg \<and>
             signal_update sim (sim_dt sim) sg = Inr sg'"
proof -
  from assms obtain ts where
    loop: "update_signals_loop sim (traffic_signals sim) = Inr ts" and
    s1: "s1 = sim\<lparr>traffic_signals := ts\<rparr>"
    by (auto simp: update_signals_def bindE_eq_Inr)
  show "s1 = sim\<lparr>traffic_signals := traffic_signals s1\<rparr>"
    by (simp add: s1)
  from update_signals_loop_Inr [OF loop]
  show "map fst (traffic_signals s1) = map fst (traffic_signals sim)"
    and "map_of (traffic_signals s1) k = Some sg' \<Longrightarrow>
           \<exists>sg. map_of (traffic_signals sim) k = Some sg \<and>
             signal_update sim (sim_dt sim) sg = Inr sg'"
    by (simp_all add: s1)
qed

lemma update_followers_Inr:
  "update_followers U dt prev ids tb = Inr tb' \<Longrightarrow> distinct (prev # ids) \<Longrightarrow>
   (\<forall>i. i \<notin> set ids \<longrightarrow> tb' i = tb i) \<and>
   (\<forall>n < length ids. \<exists>old new.
      tb (ids ! n) = Some old \<and> tb' (ids ! n) = Some new \<and>
      U (tb' ((prev # ids) ! n)) dt old = Inr new)"
proof (induction ids arbitrary: prev tb)
  case Nil
  then show ?case by simp
next
  case (Cons i rest)
  from Cons.prems(1) obtain veh lead veh' where
    veh: "tb i = Some veh" and lead: "tb prev = Some lead" and
    upd: "U (Some lead) dt veh = Inr veh'" and
    loop: "update_followers U dt i rest (tb(i \<mapsto> veh')) = Inr tb'"
    by (auto simp: bindE_eq_Inr split: option.splits)
  from Cons.prems(2) have d: "distinct (i # rest)" "prev \<noteq> i" "prev \<notin> set rest" "i \<notin> set rest"
    by auto
  from Cons.IH [OF loop d(1)] have
    frame: "\<forall>j. j \<notin> set rest \<longrightarrow> tb' j = (tb(i \<mapsto> veh')) j" and
    chain: "\<forall>n < length rest. \<exists>old new.
      (tb(i \<mapsto> veh')) (rest ! n) = Some old \<and> tb' (rest ! n) = Some new \<and>
      U (tb' ((i # rest) ! n)) dt old = Inr new"
    by blast+
  have i': "tb' i = Some veh'" and prev': "tb' prev = Some lead"
    using frame d lead by simp_all
  have "\<forall>j. j \<notin> set (i # rest) \<longrightarrow> tb' j = tb j"
    using frame by simp
  moreover have "\<exists>old new.
      tb ((i # rest) ! n) = Some old \<and> tb' ((i # rest) ! n) = Some new \<and>
      U (tb' ((prev # i # rest) ! n)) dt old = Inr new" if n: "n < length (i # rest)" for n
  proof (cases n)
    case 0
    with veh i' prev' upd show ?thesis by simp
  next
    case (Suc m)
    with n have m: "m < length rest" by simp
    then have "rest ! m \<noteq> i" using d(4) by (metis nth_mem)
    with chain m Suc show ?thesis by auto
  qed
  ultimately show ?case by blast
qed

lemma update_segment_vehicles_Inr:
  assumes "update_segment_vehicles U sim k segment tb = Inr tb'"
    and "distinct (seg_vehicles segment)"
  shows "\<forall>i. i \<notin> set (seg_vehicles segment) \<longrightarrow> tb' i = tb i"
    and "\<forall>n < length (seg_vehicles segment). \<exists>old new.
      tb (seg_vehicles segment ! n) = Some old \<and> tb' (seg_vehicles segment ! n) = Some new \<and>
      U (if n = 0 then front_leader sim k else tb' (seg_vehicles segment ! (n - 1)))
        (sim_dt sim) old = Inr new"
proof -
  let ?q = "seg_vehicles segment"
  have "(\<forall>i. i \<notin> set ?q \<longrightarrow> tb' i = tb i) \<and>
    (\<forall>n < length ?q. \<exists>old new.
      tb (?q ! n) = Some old \<and> tb' (?q ! n) = Some new \<and>
      U (if n = 0 then front_leader sim k else tb' (?q ! (n - 1))) (sim_dt sim) old = Inr new)"
  proof (cases ?q)
    case Nil
    with assms(1) show ?thesis by (simp add: update_segment_vehicles_def)
  next
    case (Cons front rest)
    with assms(1) obtain veh veh' where
      veh: "tb front = Some veh" and
      upd: "U (front_leader sim k) (sim_dt sim) veh = Inr veh'" and
      loop: "update_followers U (sim_dt sim) front rest (tb(front \<mapsto> veh')) = Inr tb'"
      by (auto simp: update_segment_vehicles_def bindE_eq_Inr split: option.splits)
    from assms(2) Cons have d: "distinct (front # rest)" "front \<notin> set rest" by simp_all
    from update_followers_Inr [OF loop d(1)] have
      frame: "\<forall>j. j \<notin> set rest \<longrightarrow> tb' j = (tb(front \<mapsto> veh')) j" and
      chain: "\<forall>n < length rest. \<exists>old new.
        (tb(front \<mapsto> veh')) (rest ! n) = Some old \<and> tb' (rest ! n) = Some new \<and>
        U (tb' ((front # rest) ! n)) (sim_dt sim) old = Inr new"
      by blast+
    have f': "tb' front = Some veh'" using frame d(2) by simp
    have "\<forall>i. i \<notin> set (front # rest) \<longrightarrow> tb' i = tb i"
      using frame by simp
    moreover have "\<exists>old new.
        tb ((front # rest) ! n) = Some old \<and> tb' ((front # rest) ! n) = Some new \<and>
        U (if n = 0 then front_leader sim k else tb' ((front # rest) ! (n - 1)))
          (sim_dt sim) old = Inr new" if n: "n < length (front # rest)" for n
    proof (cases n)
      case 0
      with veh f' upd show ?thesis by simp
    next
      case (Suc m)
      with n have m: "m < length rest" by simp
      then have "rest ! m \<noteq> front" using d(2) by (metis nth_mem)
      with chain m Suc show ?thesis by auto
    qed
    ultimately show ?thesis unfolding Cons by blast
  qed
  then show "\<forall>i. i \<notin> set ?q \<longrightarrow> tb' i = tb i"
    and "\<forall>n < length ?q. \<exists>old new.
      tb (?q ! n) = Some old \<and> tb' (?q ! n) = Some new \<and>
      U (if n = 0 then front_leader sim k else tb' (?q ! (n - 1))) (sim_dt sim) old = Inr new"
    by blast+
qed

lemma update_vehicles_loop_Inr:
  "update_vehicles_loop U sim k0 segs tb = Inr tb' \<Longrightarrow>
   distinct (concat (map seg_vehicles segs)) \<Longrightarrow>
   (\<forall>i. i \<notin> set (concat (map seg_vehicles segs)) \<longrightarrow> tb' i = tb i) \<and>
   (\<forall>m < length segs. \<forall>n < length (seg_vehicles (segs ! m)). \<exists>old new.
      tb (seg_vehicles (segs ! m) ! n) = Some old \<and>
      tb' (seg_vehicles (segs ! m) ! n) = Some new \<and>
      U (if n = 0 then front_leader sim (k0 + m) else tb' (seg_vehicles (segs ! m) ! (n - 1)))
        (sim_dt sim) old = Inr new)"
proof (induction segs arbitrary: k0 tb)
  case Nil
  then show ?case by simp
next
  case (Cons seg rest)
  let ?q = "seg_vehicles seg"
  let ?later = "concat (map seg_vehicles rest)"
  from Cons.prems(1) obtain tb1 where
    first: "update_segment_vehicles U sim k0 seg tb = Inr tb1" and
    loop: "update_vehicles_loop U sim (Suc k0) rest tb1 = Inr tb'"
    by (auto simp: bindE_eq_Inr)
  from Cons.prems(2) have d: "distinct ?q" "distinct ?later" "set ?q \<inter> set ?later = {}"
    by simp_all
  note frame1 = update_segment_vehicles_Inr(1) [OF first d(1)]
  note chain1 = update_segment_vehicles_Inr(2) [OF first d(1)]
  from Cons.IH [OF loop d(2)] have
    frame2: "\<forall>i. i \<notin> set ?later \<longrightarrow> tb' i = tb1 i" and
    chain2: "\<forall>m < length rest. \<forall>n < length (seg_vehicles (rest ! m)). \<exists>old new.
      tb1 (seg_vehicles (rest ! m) ! n) = Some old \<and>
      tb' (seg_vehicles (rest ! m) ! n) = Some new \<and>
      U (if n = 0 then front_leader sim (Suc k0 + m) else tb' (seg_vehicles (rest ! m) ! (n - 1)))
        (sim_dt sim) old = Inr new"
    by blast+
  have here: "tb' i = tb1 i" if "i \<in> set ?q" for i
    using that d(3) frame2 by blast
  have "\<forall>i. i \<notin> set (concat (map seg_vehicles (seg # rest))) \<longrightarrow> tb' i = tb i"
    using frame1 frame2 by simp
  moreover have "\<exists>old new.
      tb (seg_vehicles ((seg # rest) ! m) ! n) = Some old \<and>
      tb' (seg_vehicles ((seg # rest) ! m) ! n) = Some new \<and>
      U (if n = 0 then front_leader sim (k0 + m)
         else tb' (seg_vehicles ((seg # rest) ! m) ! (n - 1)))
        (sim_dt sim) old = Inr new"
    if m: "m < length (seg # rest)" and n: "n < length (seg_vehicles ((seg # rest) ! m))"
    for m n
  proof (cases m)
    case 0
    with n have n': "n < length ?q" by simp
    from chain1 n' obtain old new where
      c: "tb (?q ! n) = Some old" "tb1 (?q ! n) = Some new"
        "U (if n = 0 then front_leader sim k0 else tb1 (?q ! (n - 1))) (sim_dt sim) old = Inr new"
      by blast
    have "tb' (?q ! n) = tb1 (?q ! n)" using here n' by simp
    moreover have "tb' (?q ! (n - 1)) = tb1 (?q ! (n - 1))" using here n' by simp
    ultimately show ?thesis using c 0 by (cases "n = 0") simp_all
  next
    case (Suc m')
    with m n have m': "m' < length rest" and n': "n < length (seg_vehicles (rest ! m'))"
      by simp_all
    from chain2 m' n' obtain old new where
      c: "tb1 (seg_vehicles (rest ! m') ! n) = Some old"
        "tb' (seg_vehicles (rest ! m') ! n) = Some new"
        "U (if n = 0 then front_leader sim (Suc k0 + m')
            else tb' (seg_vehicles (rest ! m') ! (n - 1))) (sim_dt sim) old = Inr new"
      by blast
    have "rest ! m' \<in> set rest" "seg_vehicles (rest ! m') ! n \<in> set (seg_vehicles (rest ! m'))"
      using m' n' by simp_all
    then have "seg_vehicles (rest ! m') ! n \<in> set ?later"
      by auto
    with d(3) have "seg_vehicles (rest ! m') ! n \<notin> set ?q" by blast
    with frame1 have "tb1 (seg_vehicles (rest ! m') ! n) = tb (seg_vehicles (rest ! m') ! n)"
      by blast
    with c(1) have o: "tb (seg_vehicles (rest ! m') ! n) = Some old" by simp
    from o c(2,3) Suc show ?thesis by (cases "n = 0") auto
  qed
  ultimately show ?case by blast
qed

lemma update_vehicles_Inr:
  assumes "update_vehicles U sim = Inr s2"
  shows "s2 = sim\<lparr>vehicles := vehicles s2\<rparr>"
    and "update_vehicles_loop U sim 0 (segments sim) (vehicles sim) = Inr (vehicles s2)"
  using assms by (auto simp: update_vehicles_def bindE_eq_Inr)

lemma sim_update_Inr:
  assumes "sim_update U G sim = Inr sim'"
  shows "\<exists>s1 s2 s3 s4.
      update_signals sim = Inr s1 \<and> update_vehicles U s1 = Inr s2 \<and>
      check_out_of_bounds s2 = Inr s3 \<and>
      update_generators G (vehicle_generator s3) s3 = Inr s4 \<and>
      sim' = increment_time s4"
  using assms unfolding sim_update_def bindE_eq_Inr by blast

text \<open>
  C5. A tick that returns has updated every signal of the table first, each from its
  state before the tick and with the segments and vehicles as they were before the
  tick, and only then the vehicles, which changes nothing but the vehicle table. With
  every identifier in at most one place of the queues: a vehicle in no queue is not
  touched, and the vehicle at place \<open>n\<close> of the queue of segment \<open>k\<close> is updated once,
  from its state before the tick, with the step of the simulation; its leader is the
  phantom of the signal stored under \<open>k\<close> after the signals' update (None without a
  signal) for the front vehicle, and for every other vehicle the vehicle just before
  it in the same queue, as already updated in this tick. No leader comes from another
  segment.
\<close>

theorem tick_order:
  assumes "sim_update U G sim = Inr sim'"
  shows "\<exists>s1 s2.
      update_signals sim = Inr s1 \<and> update_vehicles U s1 = Inr s2 \<and>
      s1 = sim\<lparr>traffic_signals := traffic_signals s1\<rparr> \<and>
      map fst (traffic_signals s1) = map fst (traffic_signals sim) \<and>
      (\<forall>k sg'. map_of (traffic_signals s1) k = Some sg' \<longrightarrow>
         (\<exists>sg. map_of (traffic_signals sim) k = Some sg \<and>
            signal_update sim (sim_dt sim) sg = Inr sg')) \<and>
      s2 = s1\<lparr>vehicles := vehicles s2\<rparr> \<and>
      (\<forall>k. front_leader s1 k =
         (case map_of (traffic_signals s1) (int k) of
            None \<Rightarrow> None | Some signal \<Rightarrow> phantom signal)) \<and>
      (distinct (concat (map seg_vehicles (segments sim))) \<longrightarrow>
         (\<forall>i. i \<notin> set (concat (map seg_vehicles (segments sim))) \<longrightarrow>
            vehicles s2 i = vehicles sim i) \<and>
         (\<forall>k < length (segments sim). \<forall>n < length (seg_vehicles (segments sim ! k)).
            \<exists>old new.
              vehicles sim (seg_vehicles (segments sim ! k) ! n) = Some old \<and>
              vehicles s2 (seg_vehicles (segments sim ! k) ! n) = Some new \<and>
              U (if n = 0 then front_leader s1 k
                 else vehicles s2 (seg_vehicles (segments sim ! k) ! (n - 1)))
                (sim_dt sim) old = Inr new))"
proof -
  from sim_update_Inr [OF assms] obtain s1 s2 where
    sig: "update_signals sim = Inr s1" and veh: "update_vehicles U s1 = Inr s2"
    by blast
  note s1 = update_signals_Inr [OF sig]
  note s2 = update_vehicles_Inr [OF veh]
  have same: "segments s1 = segments sim" "vehicles s1 = vehicles sim" "sim_dt s1 = sim_dt sim"
    by (subst s1(1), simp)+
  have signals: "\<forall>k sg'. map_of (traffic_signals s1) k = Some sg' \<longrightarrow>
         (\<exists>sg. map_of (traffic_signals sim) k = Some sg \<and>
            signal_update sim (sim_dt sim) sg = Inr sg')"
    using s1(3) by blast
  have chain: "(\<forall>i. i \<notin> set (concat (map seg_vehicles (segments sim))) \<longrightarrow>
            vehicles s2 i = vehicles sim i) \<and>
         (\<forall>k < length (segments sim). \<forall>n < length (seg_vehicles (segments sim ! k)).
            \<exists>old new.
              vehicles sim (seg_vehicles (segments sim ! k) ! n) = Some old \<and>
              vehicles s2 (seg_vehicles (segments sim ! k) ! n) = Some new \<and>
              U (if n = 0 then front_leader s1 k
                 else vehicles s2 (seg_vehicles (segments sim ! k) ! (n - 1)))
                (sim_dt sim) old = Inr new)"
    if "distinct (concat (map seg_vehicles (segments sim)))"
    using update_vehicles_loop_Inr [OF s2(2) [unfolded same] that]
    by (simp only: same(3) plus_nat.add_0)
  have leader: "\<forall>k. front_leader s1 k =
         (case map_of (traffic_signals s1) (int k) of
            None \<Rightarrow> None | Some signal \<Rightarrow> phantom signal)"
    by (simp add: front_leader_def)
  from sig veh s1(1,2) signals s2(1) leader chain show ?thesis by blast
qed

lemmas tick_defs =
  sim_update_def update_signals_def update_vehicles_def update_segment_vehicles_def
  front_leader_def check_out_of_bounds_def check_segment_def popleft_def append_vehicle_def
  increment_time_def

theorem tick_order_witness:
  "\<exists>s1 s2 ph front' old new.
     update_signals red_sim = Inr s1 \<and> update_vehicles example_update s1 = Inr s2 \<and>
     front_leader s1 0 = Some ph \<and> veh_x ph = 75 \<and> veh_v ph = 0 \<and>
     example_update (Some ph) 1 fast_vehicle = Inr front' \<and>
     vehicles s2 7 = Some front' \<and>
     vehicles red_sim 8 = Some old \<and> vehicles s2 8 = Some new \<and>
     example_update (Some front') 1 old = Inr new"
proof -
  have "\<exists>sim'. sim_update example_update no_generators red_sim = Inr sim'"
    by (simp add: tick_defs signal_defs vehicle_defs red_sim_def short_green_config_def
        example_update_def)
  then obtain sim' where r: "sim_update example_update no_generators red_sim = Inr sim'"
    by blast
  have d: "distinct (concat (map seg_vehicles (segments red_sim)))"
    and q: "seg_vehicles (segments red_sim ! 0) = [7, 8]" "length (segments red_sim) = 1"
    and dt: "sim_dt red_sim = 1" and v7: "vehicles red_sim 7 = Some fast_vehicle"
    by (simp_all add: red_sim_def)
  from tick_order [OF r] d obtain s1 s2 where
    s: "update_signals red_sim = Inr s1" "update_vehicles example_update s1 = Inr s2" and
    chain: "\<forall>k < length (segments red_sim). \<forall>n < length (seg_vehicles (segments red_sim ! k)).
            \<exists>old new.
              vehicles red_sim (seg_vehicles (segments red_sim ! k) ! n) = Some old \<and>
              vehicles s2 (seg_vehicles (segments red_sim ! k) ! n) = Some new \<and>
              example_update (if n = 0 then front_leader s1 k
                 else vehicles s2 (seg_vehicles (segments red_sim ! k) ! (n - 1)))
                (sim_dt red_sim) old = Inr new"
    by blast
  from chain [rule_format, of 0 0] q dt v7 obtain front' where
    f: "vehicles s2 7 = Some front'" "example_update (front_leader s1 0) 1 fast_vehicle = Inr front'"
    by auto
  from chain [rule_format, of 0 1] q dt f(1) obtain old new where
    g: "vehicles red_sim 8 = Some old" "vehicles s2 8 = Some new"
      "example_update (Some front') 1 old = Inr new"
    by auto
  have "\<exists>ph. front_leader s1 0 = Some ph \<and> veh_x ph = 75 \<and> veh_v ph = 0"
    using s(1)
    by (auto simp: tick_defs signal_defs red_sim_def short_green_config_def)
  then obtain ph where ph: "front_leader s1 0 = Some ph" "veh_x ph = 75" "veh_v ph = 0"
    by blast
  note f2 = f(2) [unfolded ph(1)]
  from s ph f(1) f2 g show ?thesis by blast
qed

end
